theory Spec2Isabelle
  imports Main "HOL-Library.AList"
begin

section \<open>Python values used by the tunnel manager\<close>

text \<open>
  The model follows \<^verbatim>\<open>src/config/manager_frontend.py\<close> (class
  \<^verbatim>\<open>UniversalTunnelManager\<close>). Method names keep the source's names without the
  leading underscore. Strings are byte strings; an optional argument
  (\<^verbatim>\<open>tunnel_name: str = None\<close>) is a \<open>string option\<close>.
\<close>

datatype exn =
    FileNotFoundError | PermissionError | JSONDecodeError | YAMLError
  | TypeError | AttributeError | IndexError | KeyError | OSError

datatype 'a outcome = Returned 'a | Raised exn

text \<open>Truthiness of an optional string: \<^verbatim>\<open>None\<close> and \<^verbatim>\<open>""\<close> are falsy.\<close>

fun truthy :: "string option \<Rightarrow> bool" where
  "truthy None = False"
| "truthy (Some s) = (s \<noteq> [])"

text \<open>What an f-string prints for a name: \<^verbatim>\<open>f"{None}"\<close> is \<^verbatim>\<open>None\<close>.\<close>

fun py_str :: "string option \<Rightarrow> string" where
  "py_str None = ''None''"
| "py_str (Some s) = s"

text \<open>\<^verbatim>\<open>s.startswith(p)\<close>, \<^verbatim>\<open>s.endswith(p)\<close> and \<^verbatim>\<open>sub in s\<close>.\<close>

fun startswith :: "string \<Rightarrow> string \<Rightarrow> bool" where
  "startswith s [] = True"
| "startswith [] (p # ps) = False"
| "startswith (c # s) (p # ps) = (c = p \<and> startswith s ps)"

definition endswith :: "string \<Rightarrow> string \<Rightarrow> bool" where
  "endswith s p = startswith (rev s) (rev p)"

fun contains :: "string \<Rightarrow> string \<Rightarrow> bool" where
  "contains [] sub = (sub = [])"
| "contains (c # s) sub = (startswith (c # s) sub \<or> contains s sub)"

text \<open>
  Whitespace as \<^verbatim>\<open>str.strip\<close>, \<^verbatim>\<open>str.split\<close> and the regular expression class
  \<^verbatim>\<open>\s\<close> see it on ASCII text: codes 9 to 13, 28 to 32.
\<close>

definition isspace :: "char \<Rightarrow> bool" where
  "isspace c = (let n = (of_char c :: nat) in (9 \<le> n \<and> n \<le> 13) \<or> (28 \<le> n \<and> n \<le> 32))"

definition strip :: "string \<Rightarrow> string" where
  "strip s = rev (dropWhile isspace (rev (dropWhile isspace s)))"

text \<open>\<^verbatim>\<open>s.split('\n')\<close>, with the line being read kept reversed in \<open>acc\<close>.\<close>

fun split_lines :: "string \<Rightarrow> string \<Rightarrow> string list" where
  "split_lines acc [] = [rev acc]"
| "split_lines acc (c # s) =
     (if c = CHR 0x0A then rev acc # split_lines [] s else split_lines (c # acc) s)"

text \<open>\<^verbatim>\<open>line.split()[0]\<close>: the first whitespace-separated word, IndexError when there is none.\<close>

definition first_word :: "string \<Rightarrow> string outcome" where
  "first_word line =
     (let t = dropWhile isspace line
      in if t = [] then Raised IndexError else Returned (takeWhile (\<lambda>c. \<not> isspace c) t))"

text \<open>\<^verbatim>\<open>str(n)\<close> for a natural number (the temporary tunnel's time stamp).\<close>

fun str_of_nat :: "nat \<Rightarrow> string" where
  "str_of_nat n =
     (if n < 10 then [''0123456789'' ! n]
      else str_of_nat (n div 10) @ [''0123456789'' ! (n mod 10)])"

declare str_of_nat.simps [simp del]

section \<open>Data model\<close>

text \<open>An entry of a tunnel's route list in the state document.\<close>

record route =
  domain :: string
  service :: string

text \<open>
  A tunnel's record in the state document (the time stamps \<^verbatim>\<open>created_at\<close> and
  \<^verbatim>\<open>last_accessed\<close> are left out: nothing reads them). The \<^verbatim>\<open>temp_*\<close> keys are
  absent until a temporary tunnel sets them; an absent \<^verbatim>\<open>temp_tunnel\<close> reads as false.
\<close>

record tunnel_info =
  info_config_file :: string
  routes :: "route list"
  auto_start :: bool
  status :: string
  temp_tunnel :: bool
  temp_url :: "string option"
  temp_port :: "int option"
  temp_process_id :: "int option"

text \<open>
  The state document. \<^verbatim>\<open>tunnels\<close> is a JSON object: an association list in insertion
  order whose keys are strings (\<^verbatim>\<open>last_updated\<close> is left out).
\<close>

record manager_state =
  tunnels :: "(string \<times> tunnel_info) list"
  current_tunnel :: "string option"

text \<open>
  An ingress rule as \<^verbatim>\<open>yaml.safe_load\<close> returns it: a mapping, of which the keys
  \<^verbatim>\<open>hostname\<close> and \<^verbatim>\<open>service\<close> are read, or something that is not a mapping.
\<close>

datatype rule = Dict "string option" "string option" | NonDict

text \<open>The per-tunnel configuration file, as a mapping with up to three keys.\<close>

record config =
  tunnel :: "string option"
  credentials_file :: "string option"
  ingress :: "rule list option"

definition empty_config :: config where
  "empty_config = \<lparr>tunnel = None, credentials_file = None, ingress = None\<rparr>"

text \<open>
  A file is abstracted by the document it holds: a state document; a configuration; a
  JSON object that is neither, such as \<^verbatim>\<open>{}\<close> or a credentials file; the JSON value
  \<^verbatim>\<open>null\<close> or \<^verbatim>\<open>[]\<close>; bytes that neither \<^verbatim>\<open>json.load\<close> nor \<^verbatim>\<open>yaml.safe_load\<close>
  accepts; or a file that cannot be opened.
\<close>

datatype content =
    StateDoc manager_state | ConfigDoc config | JsonObject | JsonNull | Other | Unreadable

text \<open>
  What \<^verbatim>\<open>json.load\<close> returns for the state file: a state document, another object, or
  \<^verbatim>\<open>None\<close> or an empty list.
\<close>

datatype json_value = StateValue manager_state | ObjectValue | NullValue

text \<open>
  What the program does to its surroundings, in order: commands run and processes
  spawned (by argument vector), signals, sleeps (in milliseconds), files written and
  removed (by path), a step of a platform registrar, and the messages that tell how an
  operation ended (progress messages are left out).
\<close>

datatype event =
    Run "string list"
  | Popen "string list"
  | Kill int int
  | Terminate int
  | Sleep nat
  | Write string
  | Remove string
  | Platform string string
  | Print string

record cmd_result =
  returncode :: int
  stdout :: string
  stderr :: string

text \<open>An entry of the provider's JSON tunnel listing.\<close>

record entry =
  entry_name :: "string option"
  entry_id :: "string option"

text \<open>One poll of a spawned temporary-tunnel process, as the waiting loop observes it.\<close>

record tick =
  exited :: bool
  line :: "string option"
  delay :: nat

text \<open>
  Everything the program cannot decide by itself. A command's answer may depend on all
  that happened before it (the trace). \<open>json_loads\<close> is the library's parser applied to
  a provider listing and iterated as a list of mappings (\<open>None\<close>: that raised).
  \<open>autostart_setup\<close> and \<open>autostart_removal\<close> stand for the four platform registrars,
  whose unit files, scripts, agents and tasks live outside the modelled files.
\<close>

record environment =
  respond :: "event list \<Rightarrow> string list \<Rightarrow> cmd_result"
  popen :: "event list \<Rightarrow> string list \<Rightarrow> int option"
  process_exists :: "event list \<Rightarrow> int \<Rightarrow> bool"
  json_loads :: "string \<Rightarrow> entry list option"
  sys_platform :: string
  autostart_setup :: "event list \<Rightarrow> string \<Rightarrow> bool"
  autostart_removal :: "event list \<Rightarrow> string \<Rightarrow> bool"
  time_now :: nat
  temp_process :: "nat \<Rightarrow> tick"

text \<open>The files under the configuration directory, by path, and the trace so far.\<close>

record world =
  files :: "(string \<times> content) list"
  trace :: "event list"

text \<open>The manager object: \<^verbatim>\<open>self.tunnel_name\<close>, \<^verbatim>\<open>self.config_file\<close>,
  \<^verbatim>\<open>self.auto_start_on_create\<close>.\<close>

record manager =
  tunnel_name :: "string option"
  config_file :: "string option"
  auto_start_on_create :: bool

definition config_dir :: string where
  "config_dir = ''~/.cloudflared''"

definition STATE_FILE :: string where
  "STATE_FILE = ''~/.cloudflared/tunnel_manager_state.json''"

definition path_join :: "string \<Rightarrow> string \<Rightarrow> string" where
  "path_join d f = d @ ''/'' @ f"

definition config_path :: "string option \<Rightarrow> string" where
  "config_path name = path_join config_dir (''config-'' @ py_str name @ ''.yml'')"

definition emit :: "event \<Rightarrow> world \<Rightarrow> world" where
  "emit e w = w\<lparr>trace := trace w @ [e]\<rparr>"

definition run :: "environment \<Rightarrow> string list \<Rightarrow> world \<Rightarrow> cmd_result \<times> world" where
  "run E argv w = (respond E (trace w) argv, emit (Run argv) w)"

section \<open>State Store\<close>

definition empty_state :: manager_state where
  "empty_state = \<lparr>tunnels = [], current_tunnel = None\<rparr>"

text \<open>
  \<^verbatim>\<open>open(STATE_FILE, 'r')\<close> followed by \<^verbatim>\<open>json.load\<close>, with what each raises and
  what \<^verbatim>\<open>json.load\<close> returns when it parses the file (a configuration is YAML in block
  style, which it rejects).
\<close>

definition json_load_file :: "world \<Rightarrow> string \<Rightarrow> exn + json_value" where
  "json_load_file w path =
     (case map_of (files w) path of
        None \<Rightarrow> Inl FileNotFoundError
      | Some Unreadable \<Rightarrow> Inl PermissionError
      | Some (StateDoc s) \<Rightarrow> Inr (StateValue s)
      | Some JsonObject \<Rightarrow> Inr ObjectValue
      | Some JsonNull \<Rightarrow> Inr NullValue
      | Some (ConfigDoc c) \<Rightarrow> Inl JSONDecodeError
      | Some Other \<Rightarrow> Inl JSONDecodeError)"

text \<open>
  \<^verbatim>\<open>_load_state\<close>, with the value it returns: the bare \<^verbatim>\<open>except\<close> turns every
  exception into the default; a file that parses is returned as parsed, whatever its
  shape.
\<close>

definition load_state_value :: "world \<Rightarrow> json_value" where
  "load_state_value w =
     (case json_load_file w STATE_FILE of
        Inr v \<Rightarrow> v
      | Inl e \<Rightarrow> StateValue \<lparr>tunnels = [], current_tunnel = None\<rparr>)"

text \<open>
  \<^verbatim>\<open>state["tunnels"]\<close>, the first thing every caller does with the loaded value: a
  KeyError on an object without that key, a TypeError on \<^verbatim>\<open>None\<close> or a list.
\<close>

fun state_tunnels :: "json_value \<Rightarrow> exn + (string \<times> tunnel_info) list" where
  "state_tunnels (StateValue s) = Inr (tunnels s)"
| "state_tunnels ObjectValue = Inl KeyError"
| "state_tunnels NullValue = Inl TypeError"

text \<open>
  The state document the operations below work on. They are modelled for a state file
  that is missing, unreadable, unparsable or a state document. For a file holding another
  JSON value, where the access above raises, they are given the empty document.
\<close>

definition load_state :: "world \<Rightarrow> manager_state" where
  "load_state w =
     (case load_state_value w of
        StateValue s \<Rightarrow> s
      | ObjectValue \<Rightarrow> \<lparr>tunnels = [], current_tunnel = None\<rparr>
      | NullValue \<Rightarrow> \<lparr>tunnels = [], current_tunnel = None\<rparr>)"

definition save_state :: "manager_state \<Rightarrow> world \<Rightarrow> world" where
  "save_state s w =
     emit (Write STATE_FILE) (w\<lparr>files := AList.update STATE_FILE (StateDoc s) (files w)\<rparr>)"

text \<open>
  \<^verbatim>\<open>name in state["tunnels"]\<close>: the keys of a loaded document are strings, so
  \<^verbatim>\<open>None\<close> is never among them. \<^verbatim>\<open>json.dump\<close> writes the key \<^verbatim>\<open>None\<close> as
  \<^verbatim>\<open>"null"\<close>.
\<close>

fun key_in :: "string option \<Rightarrow> (string \<times> tunnel_info) list \<Rightarrow> bool" where
  "key_in None ts = False"
| "key_in (Some n) ts = (n \<in> set (map fst ts))"

fun json_key :: "string option \<Rightarrow> string" where
  "json_key None = ''null''"
| "json_key (Some n) = n"

definition new_record :: "string option \<Rightarrow> tunnel_info" where
  "new_record name =
     \<lparr>info_config_file = config_path name, routes = [], auto_start = False,
      status = ''unknown'', temp_tunnel = False, temp_url = None, temp_port = None,
      temp_process_id = None\<rparr>"

definition register_tunnel :: "string option \<Rightarrow> world \<Rightarrow> world" where
  "register_tunnel name w =
     (let state = load_state w;
          ts = (if \<not> key_in name (tunnels state)
                then AList.update (json_key name) (new_record name) (tunnels state)
                else tunnels state)
      in save_state \<lparr>tunnels = ts, current_tunnel = name\<rparr> w)"

text \<open>\<^verbatim>\<open>_update_tunnel_info\<close>: the dictionary merged in is given as a record update.\<close>

definition update_tunnel_info ::
  "string option \<Rightarrow> (tunnel_info \<Rightarrow> tunnel_info) \<Rightarrow> world \<Rightarrow> world" where
  "update_tunnel_info name info w =
     (let state = load_state w
      in if key_in name (tunnels state)
         then save_state (state\<lparr>tunnels := AList.map_entry (json_key name) info (tunnels state)\<rparr>) w
         else w)"

definition unregister_tunnel :: "string option \<Rightarrow> world \<Rightarrow> world" where
  "unregister_tunnel name w =
     (let state = load_state w
      in if key_in name (tunnels state)
         then save_state
                \<lparr>tunnels = AList.delete (json_key name) (tunnels state),
                 current_tunnel =
                   (if current_tunnel state = name then None else current_tunnel state)\<rparr> w
         else w)"

definition use_tunnel :: "string option \<Rightarrow> manager \<Rightarrow> world \<Rightarrow> manager \<times> world" where
  "use_tunnel name m w =
     (let m1 = m\<lparr>tunnel_name := name, config_file := Some (config_path name)\<rparr>;
          w1 = register_tunnel name w;
          state = load_state w1;
          w2 = save_state (state\<lparr>current_tunnel := name\<rparr>) w1
      in (m1, w2))"

section \<open>Autostart registrar, as far as the controller depends on it\<close>

definition has_systemd_user_support :: "environment \<Rightarrow> world \<Rightarrow> bool \<times> world" where
  "has_systemd_user_support E w =
     (let (r1, w1) = run E [''systemctl'', ''--version''] w
      in if returncode r1 \<noteq> 0 then (False, w1)
         else let (r2, w2) = run E [''systemctl'', ''--user'', ''status''] w1
              in (returncode r2 = 0, w2))"

text \<open>\<^verbatim>\<open>check_autostart_status(verbose=False)\<close>.\<close>

definition check_autostart_status :: "environment \<Rightarrow> manager \<Rightarrow> world \<Rightarrow> bool \<times> world" where
  "check_autostart_status E m w =
     (if \<not> truthy (tunnel_name m) then (False, w)
      else let n = py_str (tunnel_name m)
      in if startswith (sys_platform E) ''linux'' then
           (let (sd, w1) = has_systemd_user_support E w
            in if sd then
                 (let (r, w2) = run E [''systemctl'', ''--user'', ''is-enabled'',
                                       ''cloudflared-tunnel-'' @ n] w1
                  in (returncode r = 0, w2))
               else
                 (let (r, w2) = run E [''crontab'', ''-l''] w1
                  in if returncode r = 0
                     then (contains (stdout r) (''start-tunnel-'' @ n @ ''.sh''), w2)
                     else (False, w2)))
         else if sys_platform E = ''darwin'' then
           (let (r, w1) = run E [''launchctl'', ''list''] w
            in (contains (stdout r) (''com.user.cloudflare.tunnel.'' @ n), w1))
         else if sys_platform E = ''win32'' then
           (let (r, w1) = run E [''schtasks'', ''/query'', ''/tn'', ''CloudflaredTunnel-'' @ n] w
            in (returncode r = 0, w1))
         else (False, w))"

text \<open>
  \<^verbatim>\<open>setup_autostart\<close> and \<^verbatim>\<open>remove_autostart\<close>: the platform work is the
  environment's answer; what is modelled is the guard and the update of the record.
\<close>

definition setup_autostart :: "environment \<Rightarrow> manager \<Rightarrow> world \<Rightarrow> bool \<times> world" where
  "setup_autostart E m w =
     (if \<not> truthy (tunnel_name m)
      then (False, emit (Print ''No tunnel selected. Use manager.use_tunnel('name') first'') w)
      else let n = py_str (tunnel_name m);
               success = autostart_setup E (trace w) n;
               w1 = emit (Platform ''setup_autostart'' n) w
           in if success
              then (True, update_tunnel_info (tunnel_name m) (\<lambda>i. i\<lparr>auto_start := True\<rparr>) w1)
              else (False, w1))"

definition remove_autostart :: "environment \<Rightarrow> manager \<Rightarrow> world \<Rightarrow> bool \<times> world" where
  "remove_autostart E m w =
     (if \<not> truthy (tunnel_name m)
      then (False, emit (Print ''No tunnel selected'') w)
      else let n = py_str (tunnel_name m);
               success = autostart_removal E (trace w) n;
               w1 = emit (Platform ''remove_autostart'' n) w
           in if success
              then (True, update_tunnel_info (tunnel_name m) (\<lambda>i. i\<lparr>auto_start := False\<rparr>) w1)
              else (False, w1))"

text \<open>
  \<^verbatim>\<open>_restart_tunnel\<close>. \<^verbatim>\<open>_detect_environment\<close> only probes the host and its
  result is unused here. A process that cannot be spawned raises.
\<close>

definition manual_restart :: "environment \<Rightarrow> manager \<Rightarrow> world \<Rightarrow> unit outcome \<times> world" where
  "manual_restart E m w =
     (let n = py_str (tunnel_name m);
          (r, w1) = run E [''pkill'', ''-f'', ''cloudflared.*tunnel.*'' @ n] w;
          w2 = emit (Sleep 2000) w1
      in case config_file m of
           None \<Rightarrow> (Raised TypeError, w2)
         | Some cf \<Rightarrow>
             (let argv = [''cloudflared'', ''tunnel'', ''--config'', cf, ''run'', n];
                  w3 = emit (Popen argv) w2
              in case popen E (trace w2) argv of
                   None \<Rightarrow> (Raised OSError, w3)
                 | Some pid \<Rightarrow> (Returned (), emit (Print ''Tunnel restarted'') w3)))"

definition restart_tunnel :: "environment \<Rightarrow> manager \<Rightarrow> world \<Rightarrow> unit outcome \<times> world" where
  "restart_tunnel E m w =
     (if \<not> truthy (tunnel_name m) then (Returned (), w)
      else let (auto, w1) = check_autostart_status E m w
      in if auto then
           (let w2 = emit (Platform ''detect_environment'' []) (emit (Print ''Restarting service...'') w1);
                (sd, w3) = has_systemd_user_support E w2
            in if sd then
                 (let (r, w4) = run E [''systemctl'', ''--user'', ''restart'',
                                       ''cloudflared-tunnel-'' @ py_str (tunnel_name m)] w3
                  in if returncode r = 0 then (Returned (), emit (Print ''User service restarted'') w4)
                     else manual_restart E m
                            (emit (Print ''Failed to restart service, falling back to manual restart'') w4))
               else manual_restart E m w3)
         else manual_restart E m w1)"

section \<open>Config Generator\<close>

text \<open>\<^verbatim>\<open>_load_config\<close>: a missing file is the empty mapping, and so are a JSON object
  with none of the three keys and \<^verbatim>\<open>null\<close> or \<^verbatim>\<open>[]\<close>
  (\<^verbatim>\<open>yaml.safe_load(f) or {}\<close>); a file that does not parse raises.\<close>

definition load_config :: "manager \<Rightarrow> world \<Rightarrow> config outcome" where
  "load_config m w =
     (if \<not> truthy (config_file m) then Returned empty_config
      else case map_of (files w) (py_str (config_file m)) of
             None \<Rightarrow> Returned empty_config
           | Some (ConfigDoc c) \<Rightarrow> Returned c
           | Some JsonObject \<Rightarrow> Returned empty_config
           | Some JsonNull \<Rightarrow> Returned empty_config
           | Some Unreadable \<Rightarrow> Raised PermissionError
           | Some (StateDoc s) \<Rightarrow> Raised YAMLError
           | Some Other \<Rightarrow> Raised YAMLError)"

definition save_config :: "config \<Rightarrow> manager \<Rightarrow> world \<Rightarrow> world" where
  "save_config c m w =
     (if \<not> truthy (config_file m) then w
      else let p = py_str (config_file m)
           in emit (Write p) (w\<lparr>files := AList.update p (ConfigDoc c) (files w)\<rparr>))"

text \<open>\<^verbatim>\<open>os.listdir(self.config_dir)\<close>: the names of the files directly in the directory.\<close>

definition listdir :: "world \<Rightarrow> string list" where
  "listdir w =
     map (\<lambda>p. drop (Suc (length config_dir)) p)
       (filter (\<lambda>p. startswith p (config_dir @ ''/'')
                  \<and> CHR ''/'' \<notin> set (drop (Suc (length config_dir)) p))
          (map fst (files w)))"

text \<open>\<^verbatim>\<open>_get_tunnel_id\<close>: the JSON listing first, the printed table as the fallback.\<close>

fun id_from_lines :: "string \<Rightarrow> string list \<Rightarrow> string option outcome" where
  "id_from_lines n [] = Returned None"
| "id_from_lines n (l # ls) =
     (if contains l n
      then (case first_word l of Raised e \<Rightarrow> Raised e | Returned t \<Rightarrow> Returned (Some t))
      else id_from_lines n ls)"

definition get_tunnel_id ::
  "environment \<Rightarrow> string option \<Rightarrow> manager \<Rightarrow> world \<Rightarrow> string option outcome \<times> world" where
  "get_tunnel_id E name m w =
     (let name1 = (if \<not> truthy name then tunnel_name m else name)
      in if \<not> truthy name1 then (Returned None, w)
         else let (r, w1) = run E [''cloudflared'', ''tunnel'', ''list'', ''--output'', ''json''] w
         in case json_loads E (stdout r) of
              Some ts \<Rightarrow>
                (case find (\<lambda>t. entry_name t = name1) ts of
                   Some t \<Rightarrow> (Returned (entry_id t), w1)
                 | None \<Rightarrow> (Returned None, w1))
            | None \<Rightarrow> (id_from_lines (py_str name1) (split_lines [] (strip (stdout r))), w1))"

section \<open>Tunnel Lifecycle Controller\<close>

text \<open>
  \<^verbatim>\<open>create_tunnel\<close>. The first definition is the method from \<^verbatim>\<open>use_tunnel\<close> on; the
  second is the name resolution in front of it, with its nested guard as written.
  \<^verbatim>\<open>tunnel_name in result.stdout\<close> is a substring test and raises TypeError for
  \<^verbatim>\<open>None\<close>.
\<close>

definition create_tunnel_named ::
  "environment \<Rightarrow> string option \<Rightarrow> bool option \<Rightarrow> manager \<Rightarrow> world
     \<Rightarrow> bool outcome \<times> manager \<times> world" where
  "create_tunnel_named E name setup_auto_start m w =
     (let (m1, w1) = use_tunnel name m w;
          (r, w2) = run E [''cloudflared'', ''tunnel'', ''list''] w1
      in case name of
           None \<Rightarrow> (Raised TypeError, m1, w2)
         | Some n \<Rightarrow>
             if contains (stdout r) n
             then (Returned True, m1,
                   emit (Print (''Tunnel '' @ [CHR 0x27] @ n @ [CHR 0x27] @ '' already exists'')) w2)
             else
               (let (c, w3) = run E [''cloudflared'', ''tunnel'', ''create'', n] w2
                in if returncode c \<noteq> 0
                   then (Returned False, m1, emit (Print ''Failed to create tunnel'') w3)
                   else
                     (let w4 = register_tunnel name w3;
                          auto = (case setup_auto_start of
                                    None \<Rightarrow> auto_start_on_create m1
                                  | Some b \<Rightarrow> b)
                      in if auto then (Returned True, m1, snd (setup_autostart E m1 w4))
                         else (Returned True, m1, w4))))"

definition create_tunnel ::
  "environment \<Rightarrow> string option \<Rightarrow> bool option \<Rightarrow> manager \<Rightarrow> world
     \<Rightarrow> bool outcome \<times> manager \<times> world" where
  "create_tunnel E name setup_auto_start m w =
     (let name1 = (if \<not> truthy name \<and> truthy (tunnel_name m) then tunnel_name m else name)
      in if \<not> truthy name \<and> truthy (tunnel_name m) \<and> \<not> truthy name1
         then (Returned False, m, emit (Print ''Tunnel name required'') w)
         else create_tunnel_named E name1 setup_auto_start m w)"

text \<open>\<^verbatim>\<open>str(i)\<close> for the port.\<close>

definition str_of_int :: "int \<Rightarrow> string" where
  "str_of_int i = (if i < 0 then ''-'' @ str_of_nat (nat (- i)) else str_of_nat (nat i))"

definition catch_all :: rule where
  "catch_all = Dict None (Some ''http_status:404'')"

text \<open>\<^verbatim>\<open>isinstance(r, dict) and r.get("hostname") == domain\<close>\<close>

fun rule_for :: "string \<Rightarrow> rule \<Rightarrow> bool" where
  "rule_for d (Dict h s) = (h = Some d)"
| "rule_for d NonDict = False"

text \<open>\<^verbatim>\<open>isinstance(r, dict) and "hostname" in r\<close>\<close>

fun has_hostname :: "rule \<Rightarrow> bool" where
  "has_hostname (Dict h s) = (h \<noteq> None)"
| "has_hostname NonDict = False"

text \<open>
  \<^verbatim>\<open>[r for r in rules if r.get("service") != "http_status:404"]\<close>: the comprehension
  raises AttributeError at the first element that is not a mapping.
\<close>

fun drop_catch_all :: "rule list \<Rightarrow> rule list outcome" where
  "drop_catch_all [] = Returned []"
| "drop_catch_all (NonDict # rs) = Raised AttributeError"
| "drop_catch_all (Dict h s # rs) =
     (case drop_catch_all rs of
        Raised e \<Rightarrow> Raised e
      | Returned rs' \<Rightarrow>
          Returned (if s \<noteq> Some ''http_status:404'' then Dict h s # rs' else rs'))"

definition service_url :: "string \<Rightarrow> int \<Rightarrow> string" where
  "service_url end_user_url localhost_port =
     ''http://'' @ end_user_url @ '':'' @ str_of_int localhost_port"

text \<open>The ingress list \<^verbatim>\<open>add_route\<close> writes, from the list it read.\<close>

definition add_ingress :: "string \<Rightarrow> string \<Rightarrow> rule list \<Rightarrow> rule list outcome" where
  "add_ingress d svc rs =
     (case drop_catch_all (filter (\<lambda>r. \<not> rule_for d r) rs) of
        Raised e \<Rightarrow> Raised e
      | Returned rs' \<Rightarrow> Returned (rs' @ [Dict (Some d) (Some svc), catch_all]))"

text \<open>The route list both operations write back: \<^verbatim>\<open>r.get("domain") != domain\<close>.\<close>

definition drop_route :: "string \<Rightarrow> route list \<Rightarrow> route list" where
  "drop_route d rts = filter (\<lambda>r. domain r \<noteq> d) rts"

definition find_credentials :: "string \<Rightarrow> world \<Rightarrow> string option" where
  "find_credentials tunnel_id w =
     map_option (path_join config_dir)
       (find (\<lambda>f. startswith f tunnel_id \<and> endswith f ''.json'') (listdir w))"

text \<open>\<^verbatim>\<open>if not tunnel_name: tunnel_name = self.tunnel_name\<close>\<close>

definition resolve_name :: "string option \<Rightarrow> manager \<Rightarrow> string option" where
  "resolve_name name m = (if \<not> truthy name then tunnel_name m else name)"

text \<open>
  \<^verbatim>\<open>add_route\<close>, in parts: the configuration to write (tunnel id, credentials file
  found by the id's prefix, new ingress list); the update of configuration, state and
  provider once the tunnel id is known; the part from \<^verbatim>\<open>create_tunnel\<close> on; the switch to the
  tunnel in front of it; and the resolution of the tunnel name.
\<close>

definition new_config :: "string \<Rightarrow> string \<Rightarrow> string \<Rightarrow> config \<Rightarrow> world \<Rightarrow> config outcome" where
  "new_config d svc tunnel_id cfg w =
     (let cfg1 = cfg\<lparr>tunnel := Some tunnel_id\<rparr>;
          cfg2 = (case find_credentials tunnel_id w of
                    None \<Rightarrow> cfg1
                  | Some cf \<Rightarrow> cfg1\<lparr>credentials_file := Some cf\<rparr>);
          rs = (case ingress cfg2 of None \<Rightarrow> [] | Some rs \<Rightarrow> rs)
      in case add_ingress d svc rs of
           Raised e \<Rightarrow> Raised e
         | Returned rs' \<Rightarrow> Returned (cfg2\<lparr>ingress := Some rs'\<rparr>))"

text \<open>The mirror of the new route in the state document, if the tunnel has a record.\<close>

definition mirror_route :: "string \<Rightarrow> string \<Rightarrow> string \<Rightarrow> world \<Rightarrow> world" where
  "mirror_route d svc n w =
     (case map_of (tunnels (load_state w)) n of
        None \<Rightarrow> w
      | Some info \<Rightarrow>
          update_tunnel_info (Some n)
            (\<lambda>i. i\<lparr>routes := drop_route d (routes info) @ [\<lparr>domain = d, service = svc\<rparr>]\<rparr>) w)"

definition add_route_write ::
  "environment \<Rightarrow> string \<Rightarrow> int \<Rightarrow> string \<Rightarrow> string \<Rightarrow> string \<Rightarrow> manager \<Rightarrow> world
     \<Rightarrow> bool outcome \<times> manager \<times> world" where
  "add_route_write E d localhost_port end_user_url n tunnel_id m w =
     (case load_config m w of
        Raised e \<Rightarrow> (Raised e, m, w)
      | Returned cfg \<Rightarrow>
          (let is_first_route =
                 (case ingress cfg of None \<Rightarrow> True | Some rs \<Rightarrow> filter has_hostname rs = []);
               w1 = (if is_first_route \<and> auto_start_on_create m
                     then snd (check_autostart_status E m w) else w);
               svc = service_url end_user_url localhost_port
           in case new_config d svc tunnel_id cfg w1 of
                Raised e \<Rightarrow> (Raised e, m, w1)
              | Returned cfg' \<Rightarrow>
                  (let w2 = save_config cfg' m w1;
                       w3 = mirror_route d svc n w2;
                       (dns, w4) = run E [''cloudflared'', ''tunnel'', ''route'', ''dns'', n, d] w3;
                       w5 = (if returncode dns = 0 then w4
                             else emit (Print
                               ''Failed to create DNS record. You may need to create it manually.'') w4)
                   in case restart_tunnel E m w5 of
                        (Raised e, w6) \<Rightarrow> (Raised e, m, w6)
                      | (Returned u, w6) \<Rightarrow> (Returned True, m, w6))))"

definition add_route_created ::
  "environment \<Rightarrow> string \<Rightarrow> int \<Rightarrow> string \<Rightarrow> string \<Rightarrow> manager \<Rightarrow> world
     \<Rightarrow> bool outcome \<times> manager \<times> world" where
  "add_route_created E d localhost_port end_user_url n m w =
     (case create_tunnel E (Some n) None m w of
        (Raised e, m2, w2) \<Rightarrow> (Raised e, m2, w2)
      | (Returned False, m2, w2) \<Rightarrow> (Returned False, m2, w2)
      | (Returned True, m2, w2) \<Rightarrow>
          (case get_tunnel_id E (Some n) m2 w2 of
             (Raised e, w3) \<Rightarrow> (Raised e, m2, w3)
           | (Returned tid, w3) \<Rightarrow>
               if \<not> truthy tid
               then (Returned False, m2, emit (Print ''Could not find tunnel ID'') w3)
               else add_route_write E d localhost_port end_user_url n (py_str tid) m2 w3))"

definition add_route_named ::
  "environment \<Rightarrow> string \<Rightarrow> int \<Rightarrow> string \<Rightarrow> string \<Rightarrow> manager \<Rightarrow> world
     \<Rightarrow> bool outcome \<times> manager \<times> world" where
  "add_route_named E d localhost_port end_user_url n m w =
     (let (m1, w1) = (if Some n \<noteq> tunnel_name m then use_tunnel (Some n) m w else (m, w))
      in add_route_created E d localhost_port end_user_url n m1 w1)"

definition add_route ::
  "environment \<Rightarrow> string \<Rightarrow> int \<Rightarrow> string \<Rightarrow> string option \<Rightarrow> manager \<Rightarrow> world
     \<Rightarrow> bool outcome \<times> manager \<times> world" where
  "add_route E d localhost_port end_user_url name m w =
     (let name1 = resolve_name name m
      in if \<not> truthy name1
         then (Returned False, m,
               emit (Print ''No tunnel specified. Use manager.use_tunnel('name') first'') w)
         else add_route_named E d localhost_port end_user_url (py_str name1) m w)"

text \<open>The defaults of \<^verbatim>\<open>add_route\<close>'s signature, and a call that omits both.\<close>

definition add_route_default_end_user_url :: string where
  "add_route_default_end_user_url = ''localhost''"

definition add_route_default_tunnel_name :: "string option" where
  "add_route_default_tunnel_name = Some ''Universal-Tunnel''"

definition add_route_omitting_name ::
  "environment \<Rightarrow> string \<Rightarrow> int \<Rightarrow> manager \<Rightarrow> world \<Rightarrow> bool outcome \<times> manager \<times> world" where
  "add_route_omitting_name E d localhost_port m w =
     add_route E d localhost_port add_route_default_end_user_url
       add_route_default_tunnel_name m w"

text \<open>
  \<^verbatim>\<open>remove_route\<close>. The manager's name and configuration path are switched to the
  tunnel for the duration of the call and put back on every return (not when a call
  inside raises).
\<close>

definition remove_route_named ::
  "environment \<Rightarrow> string \<Rightarrow> string \<Rightarrow> manager \<Rightarrow> world \<Rightarrow> bool outcome \<times> manager \<times> world" where
  "remove_route_named E d n m w =
     (let m1 = m\<lparr>tunnel_name := Some n, config_file := Some (config_path (Some n))\<rparr>
      in case load_config m1 w of
           Raised e \<Rightarrow> (Raised e, m1, w)
         | Returned cfg \<Rightarrow>
             (case ingress cfg of
                None \<Rightarrow> (Returned False, m, emit (Print ''No routes configured'') w)
              | Some rs \<Rightarrow>
                  (let rs' = filter (\<lambda>r. \<not> rule_for d r) rs
                   in if length rs' = length rs
                      then (Returned False, m,
                            emit (Print (''Route for '' @ d @ '' not found'')) w)
                      else
                        (let w1 = save_config (cfg\<lparr>ingress := Some rs'\<rparr>) m1 w;
                             state = load_state w1;
                             w2 = (case map_of (tunnels state) n of
                                     None \<Rightarrow> w1
                                   | Some info \<Rightarrow>
                                       update_tunnel_info (Some n)
                                         (\<lambda>i. i\<lparr>routes := drop_route d (routes info)\<rparr>) w1)
                         in case restart_tunnel E m1 w2 of
                              (Raised e, w3) \<Rightarrow> (Raised e, m1, w3)
                            | (Returned u, w3) \<Rightarrow>
                                (Returned True, m, emit (Print (''Route removed: '' @ d)) w3)))))"

definition remove_route ::
  "environment \<Rightarrow> string \<Rightarrow> string option \<Rightarrow> manager \<Rightarrow> world
     \<Rightarrow> bool outcome \<times> manager \<times> world" where
  "remove_route E d name m w =
     (let name1 = resolve_name name m
      in if \<not> truthy name1
         then (Returned False, m, emit (Print ''No tunnel specified'') w)
         else remove_route_named E d (py_str name1) m w)"

text \<open>
  \<^verbatim>\<open>delete_tunnel\<close>. The retry loop first: \<open>retry_count\<close> counts the attempts that
  failed with active connections; the result is whether the loop was left normally
  (true) or the method returned false from inside it.
\<close>

function delete_attempts :: "environment \<Rightarrow> string \<Rightarrow> nat \<Rightarrow> world \<Rightarrow> bool \<times> world" where
  "delete_attempts E n retry_count w =
     (if retry_count < 3 then
        (let r = respond E (trace w) [''cloudflared'', ''tunnel'', ''delete'', n];
             w1 = emit (Run [''cloudflared'', ''tunnel'', ''delete'', n]) w
         in if returncode r = 0 then (True, emit (Print ''Tunnel deleted successfully'') w1)
            else if contains (stderr r) ''active connections'' then
              (if Suc retry_count < 3 then
                 delete_attempts E n (Suc retry_count)
                   (snd (run E [''cloudflared'', ''tunnel'', ''cleanup'', n]
                      (snd (run E [''pkill'', ''-9'', ''-f'', ''cloudflared'']
                         (emit (Sleep 5000)
                            (emit (Print (''Active connections still exist. Retrying (''
                                            @ str_of_nat (Suc retry_count) @ ''/3)...'')) w1))))))
               else (False, emit (Print ''Failed to delete tunnel: Active connections persist'') w1))
            else (False, emit (Print ''Failed to delete tunnel'') w1))
      else (True, w))"
  by pat_completeness auto
termination
  by (relation "measure (\<lambda>(E, n, retry_count, w). 3 - retry_count)") auto

declare delete_attempts.simps [simp del]

definition remove_file :: "string \<Rightarrow> world \<Rightarrow> world" where
  "remove_file p w = emit (Remove p) (w\<lparr>files := AList.delete p (files w)\<rparr>)"

text \<open>Stopping the registered service before deletion, by platform.\<close>

definition stop_service :: "environment \<Rightarrow> string \<Rightarrow> world \<Rightarrow> world" where
  "stop_service E n w =
     (let (linux_systemd, w1) =
            (if startswith (sys_platform E) ''linux'' then has_systemd_user_support E w
             else (False, w))
      in if linux_systemd then
           snd (run E [''systemctl'', ''--user'', ''stop'', ''cloudflared-tunnel-'' @ n] w1)
         else if sys_platform E = ''darwin'' then
           snd (run E [''launchctl'', ''stop'', ''com.user.cloudflare.tunnel.'' @ n] w1)
         else if sys_platform E = ''win32'' then
           snd (run E [''schtasks'', ''/end'', ''/tn'', ''CloudflaredTunnel-'' @ n] w1)
         else w1)"

text \<open>What follows a successful provider deletion: the local artifacts are removed.\<close>

definition delete_local ::
  "environment \<Rightarrow> string \<Rightarrow> string option \<Rightarrow> manager \<Rightarrow> world
     \<Rightarrow> bool outcome \<times> manager \<times> world" where
  "delete_local E n old_tunnel m w =
     (let p = py_str (config_file m);
          w1 = (if map_of (files w) p \<noteq> None then remove_file p w else w)
      in case get_tunnel_id E (Some n) m w1 of
           (Raised e, w2) \<Rightarrow> (Raised e, m, w2)
         | (Returned tid, w2) \<Rightarrow>
             (let w3 = (if truthy tid
                        then fold (\<lambda>f. remove_file (path_join config_dir f))
                               (filter (\<lambda>f. startswith f (py_str tid) \<and> endswith f ''.json'')
                                  (listdir w2)) w2
                        else w2);
                  w4 = unregister_tunnel (Some n) w3;
                  m1 = (if old_tunnel = Some n
                        then m\<lparr>tunnel_name := None, config_file := None\<rparr>
                        else m\<lparr>tunnel_name := old_tunnel,
                               config_file := Some (config_path old_tunnel)\<rparr>)
              in (Returned True, m1, w4)))"

text \<open>
  What precedes the provider deletion: switch to the tunnel, stop its processes and
  service, clean up stale connections, remove the autostart registration.
\<close>

definition delete_prepare :: "environment \<Rightarrow> string \<Rightarrow> manager \<Rightarrow> world \<Rightarrow> manager \<times> world" where
  "delete_prepare E n m w =
     (let (m1, w1) = use_tunnel (Some n) m w;
          (has_autostart, w2) = check_autostart_status E m1 w1;
          w3 = snd (run E [''pkill'', ''-f'', ''cloudflared.*tunnel.*'' @ n] w2);
          w4 = (if has_autostart then stop_service E n w3 else w3);
          w5 = emit (Sleep 3000) w4;
          w6 = snd (run E [''cloudflared'', ''tunnel'', ''cleanup'', n] w5);
          w7 = (if has_autostart then snd (remove_autostart E m1 w6) else w6)
      in (m1, w7))"

definition delete_tunnel_named ::
  "environment \<Rightarrow> string \<Rightarrow> manager \<Rightarrow> world \<Rightarrow> bool outcome \<times> manager \<times> world" where
  "delete_tunnel_named E n m w =
     (let old_tunnel = tunnel_name m;
          (m1, w7) = delete_prepare E n m w;
          (ok, w8) = delete_attempts E n 0 w7
      in if \<not> ok then (Returned False, m1\<lparr>tunnel_name := old_tunnel\<rparr>, w8)
         else delete_local E n old_tunnel m1 w8)"

text \<open>The \<^verbatim>\<open>force\<close> argument is accepted and never read.\<close>

definition delete_tunnel ::
  "environment \<Rightarrow> string option \<Rightarrow> bool \<Rightarrow> manager \<Rightarrow> world
     \<Rightarrow> bool outcome \<times> manager \<times> world" where
  "delete_tunnel E name force m w =
     (let name1 = resolve_name name m
      in if \<not> truthy name1
         then (Returned False, m, emit (Print ''No tunnel specified'') w)
         else delete_tunnel_named E (py_str name1) m w)"

section \<open>Temporary Tunnel Supervisor\<close>










text \<open>
  \<^verbatim>\<open>list_temp_tunnels\<close>: the loop over the records of the state loaded at the start.
  The method prints the list \<^verbatim>\<open>temp_tunnels\<close> it collects; the model returns it.
  \<^verbatim>\<open>os.kill(pid, 0)\<close> is the event \<open>Kill pid 0\<close>, and \<open>process_exists\<close> says
  whether it returns without raising.
\<close>

fun list_temp_loop ::
  "environment \<Rightarrow> (string \<times> tunnel_info) list \<Rightarrow> tunnel_info list \<Rightarrow> world
     \<Rightarrow> tunnel_info list \<times> world" where
  "list_temp_loop E [] temp_tunnels w = (temp_tunnels, w)"
| "list_temp_loop E ((name, info) # rest) temp_tunnels w =
     (if temp_tunnel info then
        (case temp_process_id info of
           None \<Rightarrow> list_temp_loop E rest temp_tunnels w
         | Some pid \<Rightarrow>
             if pid = 0 then list_temp_loop E rest temp_tunnels w
             else if process_exists E (trace w) pid
             then list_temp_loop E rest (temp_tunnels @ [info]) (emit (Kill pid 0) w)
             else list_temp_loop E rest temp_tunnels
                    (unregister_tunnel (Some name) (emit (Kill pid 0) w)))
      else list_temp_loop E rest temp_tunnels w)"

definition list_temp_tunnels :: "environment \<Rightarrow> world \<Rightarrow> tunnel_info list \<times> world" where
  "list_temp_tunnels E w = list_temp_loop E (tunnels (load_state w)) [] w"

text \<open>\<^verbatim>\<open>_check_tunnel_status\<close>, with its three checks in order.\<close>

definition check_temp_process :: "environment \<Rightarrow> string \<Rightarrow> tunnel_info option \<Rightarrow> world \<Rightarrow> string \<times> world" where
  "check_temp_process E name info w =
     (case (case info of None \<Rightarrow> None | Some i \<Rightarrow> temp_process_id i) of
        None \<Rightarrow> (''stopped'', w)
      | Some pid \<Rightarrow>
          if pid = 0 then (''stopped'', w)
          else if process_exists E (trace w) pid
          then (''running (temp)'', emit (Kill pid 0) w)
          else (''stopped'',
                update_tunnel_info (Some name) (\<lambda>i. i\<lparr>temp_process_id := None\<rparr>)
                  (emit (Kill pid 0) w)))"

definition check_manual_process :: "environment \<Rightarrow> string \<Rightarrow> tunnel_info option \<Rightarrow> world \<Rightarrow> string \<times> world" where
  "check_manual_process E name info w =
     (let (r, w1) = run E [''pgrep'', ''-f'', ''cloudflared.*tunnel.*'' @ name] w
      in if returncode r = 0 then (''running (manual)'', w1)
         else check_temp_process E name info w1)"

definition check_tunnel_status :: "environment \<Rightarrow> string \<Rightarrow> world \<Rightarrow> string \<times> world" where
  "check_tunnel_status E name w =
     (let info = map_of (tunnels (load_state w)) name
      in if (case info of None \<Rightarrow> False | Some i \<Rightarrow> auto_start i) then
           (let (sd, w1) = has_systemd_user_support E w
            in if sd then
                 (let (r, w2) = run E [''systemctl'', ''--user'', ''is-active'',
                                       ''cloudflared-tunnel-'' @ name] w1
                  in if returncode r = 0 then (''running (service)'', w2)
                     else check_manual_process E name info w2)
               else check_manual_process E name info w1)
         else check_manual_process E name info w)"

section \<open>Sequences of route operations on one tunnel\<close>

datatype route_op = AddRoute string int string | RemoveRoute string

fun apply_op ::
  "environment \<Rightarrow> string \<Rightarrow> route_op \<Rightarrow> manager \<Rightarrow> world \<Rightarrow> bool outcome \<times> manager \<times> world" where
  "apply_op E n (AddRoute d localhost_port end_user_url) m w =
     add_route E d localhost_port end_user_url (Some n) m w"
| "apply_op E n (RemoveRoute d) m w = remove_route E d (Some n) m w"

text \<open>A sequence all of whose operations succeed (return true) has a final state.\<close>

fun run_ops ::
  "environment \<Rightarrow> string \<Rightarrow> route_op list \<Rightarrow> manager \<Rightarrow> world \<Rightarrow> (manager \<times> world) option" where
  "run_ops E n [] m w = Some (m, w)"
| "run_ops E n (x # xs) m w =
     (case apply_op E n x m w of
        (Returned True, m', w') \<Rightarrow> run_ops E n xs m' w'
      | (Returned False, m', w') \<Rightarrow> None
      | (Raised e, m', w') \<Rightarrow> None)"

text \<open>The ingress list in a tunnel's configuration file, if the file has one.\<close>

definition ingress_of :: "world \<Rightarrow> string \<Rightarrow> rule list option" where
  "ingress_of w n =
     (case map_of (files w) (config_path (Some n)) of
        Some (ConfigDoc cfg) \<Rightarrow> ingress cfg
      | Some (StateDoc s) \<Rightarrow> None
      | Some JsonObject \<Rightarrow> None
      | Some JsonNull \<Rightarrow> None
      | Some Other \<Rightarrow> None
      | Some Unreadable \<Rightarrow> None
      | None \<Rightarrow> None)"

text \<open>A hostname rule: a mapping with a hostname whose service is not the catch-all's.\<close>

fun hostname_rule :: "rule \<Rightarrow> bool" where
  "hostname_rule (Dict h s) = (h \<noteq> None \<and> s \<noteq> None \<and> s \<noteq> Some ''http_status:404'')"
| "hostname_rule NonDict = False"

fun hostname_of :: "rule \<Rightarrow> string option" where
  "hostname_of (Dict h s) = h"
| "hostname_of NonDict = None"

text \<open>
  The ingress invariant: hostname rules with pairwise different hostnames, followed by
  the catch-all rule, which is the last element and occurs nowhere else.
\<close>

definition ingress_ok :: "rule list \<Rightarrow> bool" where
  "ingress_ok rs =
     (rs \<noteq> [] \<and> last rs = catch_all \<and> list_all hostname_rule (butlast rs)
      \<and> distinct (map hostname_of (butlast rs)))"

text \<open>Two observations on the state document: a name has a record; a name has a record
  and is the current tunnel.\<close>

definition registered :: "string \<Rightarrow> world \<Rightarrow> bool" where
  "registered n w = (n \<in> set (map fst (tunnels (load_state w))))"

definition selected :: "string \<Rightarrow> world \<Rightarrow> bool" where
  "selected n w = (current_tunnel (load_state w) = Some n \<and> registered n w)"

section \<open>Traces of a deletion that fails\<close>

text \<open>An event that is neither a provider deletion of the tunnel nor the removal of a file.\<close>

fun harmless :: "string \<Rightarrow> event \<Rightarrow> bool" where
  "harmless n (Run argv) = (argv \<noteq> [''cloudflared'', ''tunnel'', ''delete'', n])"
| "harmless n (Remove p) = False"
| "harmless n (Popen argv) = True"
| "harmless n (Kill pid sig) = True"
| "harmless n (Terminate pid) = True"
| "harmless n (Sleep ms) = True"
| "harmless n (Write p) = True"
| "harmless n (Platform s t) = True"
| "harmless n (Print s) = True"

definition prepares :: "string \<Rightarrow> world \<Rightarrow> world \<Rightarrow> bool" where
  "prepares n w w' = (\<exists>evs. trace w' = trace w @ evs \<and> list_all (harmless n) evs)"

text \<open>The three attempts, with what lies between them.\<close>

definition attempts_trace :: "string \<Rightarrow> event list" where
  "attempts_trace n =
     [Run [''cloudflared'', ''tunnel'', ''delete'', n],
      Print ''Active connections still exist. Retrying (1/3)...'',
      Sleep 5000,
      Run [''pkill'', ''-9'', ''-f'', ''cloudflared''],
      Run [''cloudflared'', ''tunnel'', ''cleanup'', n],
      Run [''cloudflared'', ''tunnel'', ''delete'', n],
      Print ''Active connections still exist. Retrying (2/3)...'',
      Sleep 5000,
      Run [''pkill'', ''-9'', ''-f'', ''cloudflared''],
      Run [''cloudflared'', ''tunnel'', ''cleanup'', n],
      Run [''cloudflared'', ''tunnel'', ''delete'', n],
      Print ''Failed to delete tunnel: Active connections persist'']"

section \<open>Example inputs\<close>

text \<open>An environment in which every command exits with status 0 and prints nothing,
  a manager constructed without a tunnel name, a world with one configured tunnel, a
  world without files, and a sequence of route operations.\<close>

definition quiet_env :: environment where
  "quiet_env =
     \<lparr>respond = (\<lambda>h argv. \<lparr>returncode = 0, stdout = [], stderr = []\<rparr>),
      popen = (\<lambda>h argv. Some 4242),
      process_exists = (\<lambda>h pid. False),
      json_loads = (\<lambda>s. Some [\<lparr>entry_name = Some ''demo'', entry_id = Some ''6ff42ae2''\<rparr>]),
      sys_platform = ''linux'',
      autostart_setup = (\<lambda>h n. True),
      autostart_removal = (\<lambda>h n. True),
      time_now = 1700000000,
      temp_process = (\<lambda>i. \<lparr>exited = False, line = Some [], delay = 0\<rparr>)\<rparr>"

definition fresh_manager :: manager where
  "fresh_manager = \<lparr>tunnel_name = None, config_file = None, auto_start_on_create = True\<rparr>"

definition demo_world :: world where
  "demo_world =
     \<lparr>files = [(''~/.cloudflared/config-demo.yml'',
                 ConfigDoc \<lparr>tunnel = Some ''6ff42ae2'', credentials_file = None,
                            ingress = Some [Dict (Some ''app.example.com'')
                                              (Some ''http://localhost:3000''),
                                            Dict None (Some ''http_status:404'')]\<rparr>)],
      trace = []\<rparr>"

definition empty_world :: world where
  "empty_world = \<lparr>files = [], trace = []\<rparr>"

definition demo_ops :: "route_op list" where
  "demo_ops = [AddRoute ''app.example.com'' 3000 ''localhost'',
               AddRoute ''api.example.com'' 5000 ''localhost'',
               RemoveRoute ''app.example.com'']"

text \<open>An environment in which the provider refuses to delete the tunnel \<^verbatim>\<open>demo\<close>.\<close>

definition busy_env :: environment where
  "busy_env =
     quiet_env\<lparr>respond :=
       (\<lambda>h argv. if argv = [''cloudflared'', ''tunnel'', ''delete'', ''demo'']
                  then \<lparr>returncode = 1, stdout = [],
                        stderr = ''tunnel has active connections''\<rparr>
                  else \<lparr>returncode = 0, stdout = [], stderr = []\<rparr>)\<rparr>"

text \<open>An environment whose provider registry holds the single tunnel \<^verbatim>\<open>my-app\<close>, as
  the table and as the JSON listing.\<close>

definition listing_env :: environment where
  "listing_env =
     quiet_env\<lparr>respond :=
       (\<lambda>h argv. if argv = [''cloudflared'', ''tunnel'', ''list'']
                  then \<lparr>returncode = 0,
                        stdout = ''ID NAME CREATED CONNECTIONS'' @ [CHR 0x0A]
                                 @ ''6ff42ae2 my-app 2024-01-01T00:00:00Z 2xLHR'' @ [CHR 0x0A],
                        stderr = []\<rparr>
                  else \<lparr>returncode = 0, stdout = [], stderr = []\<rparr>),
       json_loads := (\<lambda>s. Some [\<lparr>entry_name = Some ''my-app'', entry_id = Some ''6ff42ae2''\<rparr>])\<rparr>"


definition dead_env :: environment where
  "dead_env = quiet_env\<lparr>respond := (\<lambda>h argv. \<lparr>returncode = 1, stdout = [], stderr = []\<rparr>)\<rparr>"

definition temp_record :: tunnel_info where
  "temp_record =
     \<lparr>info_config_file = ''~/.cloudflared/config-temp-1700000000.yml'', routes = [],
      auto_start = False, status = ''unknown'', temp_tunnel = True,
      temp_url = Some ''https://abc.trycloudflare.com'', temp_port = Some 8080,
      temp_process_id = Some 4242\<rparr>"

definition temp_world :: world where
  "temp_world =
     \<lparr>files = [(''~/.cloudflared/tunnel_manager_state.json'',
                 StateDoc \<lparr>tunnels = [(''temp-1700000000'', temp_record)],
                           current_tunnel = Some ''temp-1700000000''\<rparr>)],
      trace = []\<rparr>"

section \<open>Properties\<close>

subsection \<open>Frame facts: what each step leaves alone\<close>

lemma files_emit [simp]: "files (emit e w) = files w"
  by (simp add: emit_def)

lemma trace_emit [simp]: "trace (emit e w) = trace w @ [e]"
  by (simp add: emit_def)

lemma load_state_files: "files w' = files w \<Longrightarrow> load_state w' = load_state w"
  by (simp add: load_state_def load_state_value_def json_load_file_def)

lemma load_state_emit [simp]: "load_state (emit e w) = load_state w"
  by (rule load_state_files) simp

lemma files_run [simp]: "files (snd (run E argv w)) = files w"
  by (simp add: run_def)

lemma load_state_run [simp]: "load_state (snd (run E argv w)) = load_state w"
  by (rule load_state_files) simp

lemma state_path_neq_config [simp]:
  "config_path name \<noteq> STATE_FILE" "STATE_FILE \<noteq> config_path name"
  by (simp_all add: config_path_def STATE_FILE_def path_join_def config_dir_def)

lemma load_state_save_state [simp]: "load_state (save_state s w) = s"
  by (simp add: load_state_def load_state_value_def json_load_file_def save_state_def update_conv')

lemma other_save_state [simp]:
  "p \<noteq> STATE_FILE \<Longrightarrow> map_of (files (save_state s w)) p = map_of (files w) p"
  by (simp add: save_state_def update_conv')

lemma other_register_tunnel [simp]:
  "p \<noteq> STATE_FILE \<Longrightarrow> map_of (files (register_tunnel name w)) p = map_of (files w) p"
  by (simp add: register_tunnel_def Let_def)

lemma other_update_tunnel_info [simp]:
  "p \<noteq> STATE_FILE \<Longrightarrow> map_of (files (update_tunnel_info name f w)) p = map_of (files w) p"
  by (simp add: update_tunnel_info_def Let_def)

lemma other_unregister_tunnel [simp]:
  "p \<noteq> STATE_FILE \<Longrightarrow> map_of (files (unregister_tunnel name w)) p = map_of (files w) p"
  by (simp add: unregister_tunnel_def Let_def)

lemma other_use_tunnel [simp]:
  "p \<noteq> STATE_FILE \<Longrightarrow> map_of (files (snd (use_tunnel name m w))) p = map_of (files w) p"
  by (simp add: use_tunnel_def Let_def)

lemma files_has_systemd [simp]: "files (snd (has_systemd_user_support E w)) = files w"
  by (simp add: has_systemd_user_support_def run_def Let_def split: prod.splits)

lemma load_state_has_systemd [simp]:
  "load_state (snd (has_systemd_user_support E w)) = load_state w"
  by (rule load_state_files) simp

lemma files_check_autostart [simp]: "files (snd (check_autostart_status E m w)) = files w"
  by (simp add: check_autostart_status_def run_def Let_def split_beta)

lemma load_state_check_autostart [simp]:
  "load_state (snd (check_autostart_status E m w)) = load_state w"
  by (rule load_state_files) simp

lemma files_manual_restart [simp]: "files (snd (manual_restart E m w)) = files w"
  by (simp add: manual_restart_def run_def Let_def split_beta split: option.splits)

lemma files_restart_tunnel [simp]: "files (snd (restart_tunnel E m w)) = files w"
  by (simp add: restart_tunnel_def run_def Let_def split_beta)

lemma load_state_restart_tunnel [simp]:
  "load_state (snd (restart_tunnel E m w)) = load_state w"
  by (rule load_state_files) simp

lemma files_get_tunnel_id [simp]: "files (snd (get_tunnel_id E name m w)) = files w"
  by (simp add: get_tunnel_id_def run_def Let_def split_beta split: option.splits)

lemma load_state_get_tunnel_id [simp]:
  "load_state (snd (get_tunnel_id E name m w)) = load_state w"
  by (rule load_state_files) simp

lemma other_setup_autostart [simp]:
  "p \<noteq> STATE_FILE \<Longrightarrow> map_of (files (snd (setup_autostart E m w))) p = map_of (files w) p"
  by (simp add: setup_autostart_def Let_def)

lemma other_remove_autostart [simp]:
  "p \<noteq> STATE_FILE \<Longrightarrow> map_of (files (snd (remove_autostart E m w))) p = map_of (files w) p"
  by (simp add: remove_autostart_def Let_def)

lemma other_create_tunnel_named [simp]:
  "p \<noteq> STATE_FILE \<Longrightarrow>
   map_of (files (snd (snd (create_tunnel_named E name sa m w)))) p = map_of (files w) p"
  by (simp add: create_tunnel_named_def Let_def split_beta run_def split: option.splits)

lemma other_create_tunnel [simp]:
  "p \<noteq> STATE_FILE \<Longrightarrow>
   map_of (files (snd (snd (create_tunnel E name sa m w)))) p = map_of (files w) p"
  by (simp add: create_tunnel_def Let_def)

subsection \<open>The state document after each step\<close>

lemma keys_map_entry [simp]: "map fst (AList.map_entry k f al) = map fst al"
  by (induction al) auto

lemma keys_image_map_entry [simp]: "fst ` set (AList.map_entry k f al) = fst ` set al"
  by (induction al) auto

lemma selected_files: "files w' = files w \<Longrightarrow> selected n w' = selected n w"
  using load_state_files [of w' w] by (simp add: selected_def registered_def)

lemma selected_emit [simp]: "selected n (emit e w) = selected n w"
  by (rule selected_files) simp

lemma selected_run [simp]: "selected n (snd (run E argv w)) = selected n w"
  by (rule selected_files) simp

lemma selected_register [simp]: "selected n (register_tunnel (Some n) w)"
  by (auto simp: selected_def registered_def register_tunnel_def Let_def dom_update)

lemma selected_update [simp]: "selected n (update_tunnel_info name f w) = selected n w"
  by (simp add: selected_def registered_def update_tunnel_info_def Let_def)

lemma selected_use_tunnel [simp]: "selected n (snd (use_tunnel (Some n) m w))"
  using selected_register [of n w]
  by (simp add: use_tunnel_def Let_def selected_def registered_def)

lemma selected_setup_autostart [simp]:
  "selected n (snd (setup_autostart E m w)) = selected n w"
  by (simp add: setup_autostart_def Let_def)

lemma selected_check_autostart [simp]:
  "selected n (snd (check_autostart_status E m w)) = selected n w"
  by (rule selected_files) simp

lemma selected_restart [simp]: "selected n (snd (restart_tunnel E m w)) = selected n w"
  by (rule selected_files) simp

lemma selected_get_tunnel_id [simp]:
  "selected n (snd (get_tunnel_id E name m w)) = selected n w"
  by (rule selected_files) simp

lemma create_tunnel_named_manager [simp]:
  "fst (snd (create_tunnel_named E name sa m w))
     = m\<lparr>tunnel_name := name, config_file := Some (config_path name)\<rparr>"
  by (simp add: create_tunnel_named_def use_tunnel_def Let_def split_beta split: option.splits)

lemma selected_create_tunnel_named [simp]:
  "selected n (snd (snd (create_tunnel_named E (Some n) sa m w)))"
  by (simp add: create_tunnel_named_def Let_def split_beta)

lemma create_tunnel_truthy:
  "truthy name \<Longrightarrow> create_tunnel E name sa m w = create_tunnel_named E name sa m w"
  by (simp add: create_tunnel_def)

subsection \<open>State Store\<close>

lemma json_load_file_missing:
  "map_of (files w) p = None \<Longrightarrow> json_load_file w p = Inl FileNotFoundError"
  by (simp add: json_load_file_def)

text \<open>
  C8. When the state file is missing, cannot be opened, or holds bytes that are not JSON,
  the load raises inside the \<^verbatim>\<open>try\<close> and \<^verbatim>\<open>_load_state\<close> returns the empty default
  state (no tunnels and no current tunnel), on which the caller's access succeeds.
\<close>

theorem load_state_fails_soft:
  assumes "map_of (files w) STATE_FILE = None
         \<or> map_of (files w) STATE_FILE = Some Unreadable
         \<or> map_of (files w) STATE_FILE = Some Other"
  shows "(\<exists>e. json_load_file w STATE_FILE = Inl e)
       \<and> load_state_value w = StateValue \<lparr>tunnels = [], current_tunnel = None\<rparr>
       \<and> state_tunnels (load_state_value w) = Inr []"
  using assms by (auto simp: load_state_value_def json_load_file_def)

theorem load_state_fails_soft_witness:
  "load_state_value \<lparr>files = [], trace = []\<rparr>
     = StateValue \<lparr>tunnels = [], current_tunnel = None\<rparr>
 \<and> load_state_value \<lparr>files = [(STATE_FILE, Unreadable)], trace = []\<rparr>
     = StateValue \<lparr>tunnels = [], current_tunnel = None\<rparr>
 \<and> load_state_value \<lparr>files = [(STATE_FILE, Other)], trace = []\<rparr>
     = StateValue \<lparr>tunnels = [], current_tunnel = None\<rparr>"
  using load_state_fails_soft [of "\<lparr>files = [], trace = []\<rparr>"]
        load_state_fails_soft [of "\<lparr>files = [(STATE_FILE, Unreadable)], trace = []\<rparr>"]
        load_state_fails_soft [of "\<lparr>files = [(STATE_FILE, Other)], trace = []\<rparr>"]
  by simp

text \<open>
  C8, where it fails: a state file that parses as JSON is returned as parsed. For a file
  holding \<^verbatim>\<open>{}\<close> (or \<^verbatim>\<open>null\<close>) \<^verbatim>\<open>_load_state\<close> does not return the default, and
  the caller's \<^verbatim>\<open>state["tunnels"]\<close> raises KeyError (or TypeError).
\<close>

theorem load_state_parsed_corrupt_state:
  "load_state_value \<lparr>files = [(STATE_FILE, JsonObject)], trace = []\<rparr> = ObjectValue
 \<and> load_state_value \<lparr>files = [(STATE_FILE, JsonObject)], trace = []\<rparr>
     \<noteq> StateValue \<lparr>tunnels = [], current_tunnel = None\<rparr>
 \<and> state_tunnels (load_state_value \<lparr>files = [(STATE_FILE, JsonObject)], trace = []\<rparr>)
     = Inl KeyError
 \<and> load_state_value \<lparr>files = [(STATE_FILE, JsonNull)], trace = []\<rparr> = NullValue
 \<and> state_tunnels (load_state_value \<lparr>files = [(STATE_FILE, JsonNull)], trace = []\<rparr>)
     = Inl TypeError"
  by (simp add: load_state_value_def json_load_file_def)

subsection \<open>What a route addition writes\<close>

lemma config_path_nonempty [simp]: "config_path name \<noteq> []"
  by (simp add: config_path_def path_join_def config_dir_def)

lemma other_save_config [simp]:
  "p \<noteq> py_str (config_file m) \<Longrightarrow> map_of (files (save_config c m w)) p = map_of (files w) p"
  by (simp add: save_config_def Let_def update_conv')

lemma load_state_save_config [simp]:
  "config_file m = Some (config_path x) \<Longrightarrow> load_state (save_config c m w) = load_state w"
  by (simp add: load_state_def load_state_value_def json_load_file_def)

lemma selected_save_config [simp]:
  "config_file m = Some (config_path x) \<Longrightarrow> selected n (save_config c m w) = selected n w"
  by (simp add: selected_def registered_def)

lemma add_route_write_manager [simp]:
  "fst (snd (add_route_write E d p h n tid m w)) = m"
  by (simp add: add_route_write_def Let_def split_beta split: outcome.splits option.splits)

lemma selected_mirror_route [simp]: "selected k (mirror_route d svc n w) = selected k w"
  by (simp add: mirror_route_def split: option.splits)

lemma other_mirror_route [simp]:
  "p \<noteq> STATE_FILE \<Longrightarrow> map_of (files (mirror_route d svc n w)) p = map_of (files w) p"
  by (simp add: mirror_route_def split: option.splits)

lemma selected_add_route_write:
  "config_file m = Some (config_path x) \<Longrightarrow> selected k w \<Longrightarrow>
   selected k (snd (snd (add_route_write E d p h n tid m w)))"
  by (simp add: add_route_write_def Let_def split_beta split: outcome.splits option.splits)

lemma add_route_created_manager:
  "n \<noteq> [] \<Longrightarrow> fst (snd (add_route_created E d p h n m w))
     = m\<lparr>tunnel_name := Some n, config_file := Some (config_path (Some n))\<rparr>"
  by (simp add: add_route_created_def create_tunnel_truthy split_beta
        split: outcome.splits bool.splits)

lemma selected_add_route_created:
  "n \<noteq> [] \<Longrightarrow> selected n (snd (snd (add_route_created E d p h n m w)))"
  by (simp add: add_route_created_def create_tunnel_truthy split_beta
        selected_add_route_write [where x = "Some n"]
        split: outcome.splits bool.splits)

lemma add_route_named_manager:
  "n \<noteq> [] \<Longrightarrow> fst (snd (add_route_named E d p h n m w))
     = m\<lparr>tunnel_name := Some n, config_file := Some (config_path (Some n))\<rparr>"
  by (cases "Some n = tunnel_name m")
     (simp_all add: add_route_named_def add_route_created_manager use_tunnel_def Let_def)

lemma selected_add_route_named:
  "n \<noteq> [] \<Longrightarrow> selected n (snd (snd (add_route_named E d p h n m w)))"
  by (cases "Some n = tunnel_name m")
     (simp_all add: add_route_named_def selected_add_route_created split_beta)


lemma tunnels_update_tunnel_info:
  "map_of (tunnels (load_state (update_tunnel_info (Some n) f w))) k
     = (if k = n then map_option f (map_of (tunnels (load_state w)) n)
        else map_of (tunnels (load_state w)) k)"
proof (cases "map_of (tunnels (load_state w)) n")
  case None
  then have "n \<notin> fst ` set (tunnels (load_state w))" by (simp add: map_of_eq_None_iff)
  with None show ?thesis by (simp add: update_tunnel_info_def Let_def)
next
  case (Some i)
  then have "n \<in> fst ` set (tunnels (load_state w))" by (metis map_of_eq_None_iff option.distinct(1))
  with Some show ?thesis by (simp add: update_tunnel_info_def Let_def map_of_map_entry)
qed

lemma ingress_of_files:
  "map_of (files w') (config_path (Some n)) = map_of (files w) (config_path (Some n))
   \<Longrightarrow> ingress_of w' n = ingress_of w n"
  by (simp add: ingress_of_def)

lemma new_config_ingress:
  assumes "new_config d svc tid cfg w = Returned cfg'"
  shows "\<exists>rs'. add_ingress d svc (case ingress cfg of None \<Rightarrow> [] | Some rs \<Rightarrow> rs) = Returned rs'
             \<and> ingress cfg' = Some rs'"
  using assms
  by (auto simp: new_config_def Let_def split: outcome.splits option.splits)

lemma load_config_ingress_of:
  assumes "load_config m w = Returned cfg" "config_file m = Some (config_path (Some n))"
  shows "ingress cfg = ingress_of w n"
  using assms
  by (auto simp: load_config_def ingress_of_def empty_config_def
        split: option.splits content.splits if_splits)

lemma ingress_of_save_config:
  "config_file m = Some (config_path (Some n)) \<Longrightarrow> ingress_of (save_config cfg m w) n = ingress cfg"
  by (simp add: ingress_of_def save_config_def update_conv' Let_def)

lemma add_route_write_success:
  assumes ok: "add_route_write E d p h n tid m w = (Returned True, m', w')"
      and cf: "config_file m = Some (config_path (Some n))"
  shows "\<exists>rs'. add_ingress d (service_url h p)
                 (case ingress_of w n of None \<Rightarrow> [] | Some rs \<Rightarrow> rs) = Returned rs'
             \<and> ingress_of w' n = Some rs'"
proof -
  from ok obtain cfg where lc: "load_config m w = Returned cfg"
    by (cases "load_config m w") (simp_all add: add_route_write_def)
  define w1 where "w1 = (if (case ingress cfg of None \<Rightarrow> True | Some rs \<Rightarrow> filter has_hostname rs = [])
                            \<and> auto_start_on_create m
                         then snd (check_autostart_status E m w) else w)"
  from ok lc obtain cfg' where nc: "new_config d (service_url h p) tid cfg w1 = Returned cfg'"
    by (cases "new_config d (service_url h p) tid cfg w1")
       (simp_all add: add_route_write_def Let_def w1_def)
  from new_config_ingress [OF nc] load_config_ingress_of [OF lc cf]
  obtain rs' where rs': "add_ingress d (service_url h p)
        (case ingress_of w n of None \<Rightarrow> [] | Some rs \<Rightarrow> rs) = Returned rs'" "ingress cfg' = Some rs'"
    by auto
  define w3 where "w3 = mirror_route d (service_url h p) n (save_config cfg' m w1)"
  have i3: "ingress_of w3 n = Some rs'"
    using ingress_of_save_config [OF cf, of cfg' w1] rs'(2)
      ingress_of_files [of w3 n "save_config cfg' m w1"]
    by (simp add: w3_def)
  from ok lc nc have "files w' = files w3"
    by (auto simp: add_route_write_def Let_def split_beta w1_def w3_def
          split: outcome.splits if_splits)
  then have "ingress_of w' n = ingress_of w3 n" by (simp add: ingress_of_def)
  with i3 rs'(1) show ?thesis by simp
qed

lemma add_route_write_routes:
  assumes ok: "add_route_write E d p h n tid m w = (Returned True, m', w')"
      and cf: "config_file m = Some (config_path (Some n))"
      and reg: "map_of (tunnels (load_state w)) n = Some info"
  shows "\<exists>info'. map_of (tunnels (load_state w')) n = Some info'
           \<and> routes info' = drop_route d (routes info) @ [\<lparr>domain = d, service = service_url h p\<rparr>]"
proof -
  from ok obtain cfg where lc: "load_config m w = Returned cfg"
    by (cases "load_config m w") (simp_all add: add_route_write_def)
  define w1 where "w1 = (if (case ingress cfg of None \<Rightarrow> True | Some rs \<Rightarrow> filter has_hostname rs = [])
                            \<and> auto_start_on_create m
                         then snd (check_autostart_status E m w) else w)"
  from ok lc obtain cfg' where nc: "new_config d (service_url h p) tid cfg w1 = Returned cfg'"
    by (cases "new_config d (service_url h p) tid cfg w1")
       (simp_all add: add_route_write_def Let_def w1_def)
  define w2 where "w2 = save_config cfg' m w1"
  define w3 where "w3 = mirror_route d (service_url h p) n w2"
  have s2: "load_state w2 = load_state w"
    using cf by (simp add: w2_def w1_def)
  have "map_of (tunnels (load_state w3)) n
          = Some (info\<lparr>routes := drop_route d (routes info) @ [\<lparr>domain = d, service = service_url h p\<rparr>]\<rparr>)"
    using reg by (simp add: w3_def mirror_route_def s2 tunnels_update_tunnel_info)
  moreover from ok lc nc have "load_state w' = load_state w3"
    by (auto simp: add_route_write_def Let_def split_beta w1_def w2_def w3_def
          split: outcome.splits if_splits)
  ultimately show ?thesis by simp
qed

subsection \<open>Ingress lists\<close>

lemma ingress_ok_iff:
  "ingress_ok rs \<longleftrightarrow>
     (\<exists>hs. rs = hs @ [catch_all] \<and> list_all hostname_rule hs \<and> distinct (map hostname_of hs))"
  by (cases rs rule: rev_cases) (auto simp: ingress_ok_def)

lemma rule_for_catch_all [simp]: "\<not> rule_for d catch_all"
  by (simp add: catch_all_def)

lemma rule_for_hostname_of: "rule_for d r \<longleftrightarrow> hostname_of r = Some d"
  by (cases r) auto

lemma drop_catch_all_hostname_rules:
  "list_all hostname_rule ys \<Longrightarrow> drop_catch_all (ys @ [catch_all]) = Returned ys"
proof (induction ys)
  case Nil
  then show ?case by (simp add: catch_all_def)
next
  case (Cons r ys)
  then show ?case by (cases r) auto
qed

lemma drop_catch_all_subset:
  "drop_catch_all ys = Returned xs \<Longrightarrow> set xs \<subseteq> set ys"
proof (induction ys arbitrary: xs rule: drop_catch_all.induct)
  case 1
  then show ?case by simp
next
  case (2 rs)
  then show ?case by simp
next
  case (3 h s rs)
  then show ?case by (auto split: outcome.splits if_splits)
qed

lemma service_url_not_catch_all [simp]: "service_url h p \<noteq> ''http_status:404''"
  by (simp add: service_url_def)

lemma add_ingress_empty:
  "add_ingress d svc [] = Returned [Dict (Some d) (Some svc), catch_all]"
  by (simp add: add_ingress_def)

lemma add_ingress_ok:
  assumes "ingress_ok rs" "add_ingress d (service_url h p) rs = Returned rs'"
  shows "ingress_ok rs'"
proof -
  from assms(1) obtain hs where hs: "rs = hs @ [catch_all]" "list_all hostname_rule hs"
      "distinct (map hostname_of hs)"
    by (auto simp: ingress_ok_iff)
  let ?ys = "filter (\<lambda>r. \<not> rule_for d r) hs"
  have ys: "list_all hostname_rule ?ys" using hs(2) by (simp add: list_all_iff)
  have "filter (\<lambda>r. \<not> rule_for d r) rs = ?ys @ [catch_all]" by (simp add: hs(1))
  with assms(2) drop_catch_all_hostname_rules [OF ys]
  have rs': "rs' = (?ys @ [Dict (Some d) (Some (service_url h p))]) @ [catch_all]"
    by (simp add: add_ingress_def)
  have "Some d \<notin> hostname_of ` set ?ys" by (auto simp: rule_for_hostname_of)
  moreover have "distinct (map hostname_of ?ys)" using hs(3) by (rule distinct_map_filter)
  ultimately have "distinct (map hostname_of (?ys @ [Dict (Some d) (Some (service_url h p))]))"
    by simp
  moreover have "list_all hostname_rule (?ys @ [Dict (Some d) (Some (service_url h p))])"
    using ys by simp
  ultimately show ?thesis unfolding rs' ingress_ok_iff by blast
qed

lemma add_ingress_empty_ok: "add_ingress d (service_url h p) [] = Returned rs' \<Longrightarrow> ingress_ok rs'"
  by (auto simp: add_ingress_empty ingress_ok_def catch_all_def)

lemma remove_ingress_ok:
  assumes "ingress_ok rs"
  shows "ingress_ok (filter (\<lambda>r. \<not> rule_for d r) rs)"
proof -
  from assms obtain hs where hs: "rs = hs @ [catch_all]" "list_all hostname_rule hs"
      "distinct (map hostname_of hs)"
    by (auto simp: ingress_ok_iff)
  let ?ys = "filter (\<lambda>r. \<not> rule_for d r) hs"
  have "filter (\<lambda>r. \<not> rule_for d r) rs = ?ys @ [catch_all]" by (simp add: hs(1))
  moreover have "list_all hostname_rule ?ys" using hs(2) by (simp add: list_all_iff)
  moreover have "distinct (map hostname_of ?ys)" using hs(3) by (rule distinct_map_filter)
  ultimately show ?thesis unfolding ingress_ok_iff by blast
qed

lemma add_ingress_one_rule:
  assumes "add_ingress d svc rs = Returned rs'"
  shows "filter (rule_for d) rs' = [Dict (Some d) (Some svc)]"
proof -
  from assms obtain xs where xs: "drop_catch_all (filter (\<lambda>r. \<not> rule_for d r) rs) = Returned xs"
      "rs' = xs @ [Dict (Some d) (Some svc), catch_all]"
    by (auto simp: add_ingress_def split: outcome.splits)
  from drop_catch_all_subset [OF xs(1)] have "filter (rule_for d) xs = []"
    by (auto simp: filter_empty_conv)
  then show ?thesis by (simp add: xs(2))
qed

lemma drop_route_one_route:
  "filter (\<lambda>r. domain r = d) (drop_route d rts @ [\<lparr>domain = d, service = svc\<rparr>])
     = [\<lparr>domain = d, service = svc\<rparr>]"
  by (simp add: drop_route_def filter_empty_conv)

subsection \<open>Successful route operations\<close>

lemma add_route_success:
  assumes ok: "add_route E d p h (Some n) m w = (Returned True, m', w')" and n: "n \<noteq> []"
  shows "\<exists>rs'. add_ingress d (service_url h p)
                 (case ingress_of w n of None \<Rightarrow> [] | Some rs \<Rightarrow> rs) = Returned rs'
             \<and> ingress_of w' n = Some rs'"
    and "\<exists>info' rts. map_of (tunnels (load_state w')) n = Some info'
           \<and> routes info' = drop_route d rts @ [\<lparr>domain = d, service = service_url h p\<rparr>]"
proof -
  obtain m1 w1 where u:
    "(if Some n \<noteq> tunnel_name m then use_tunnel (Some n) m w else (m, w)) = (m1, w1)"
    by (cases "if Some n \<noteq> tunnel_name m then use_tunnel (Some n) m w else (m, w)")
  have w1: "w1 = snd (if Some n \<noteq> tunnel_name m then use_tunnel (Some n) m w else (m, w))"
    by (simp add: u)
  have i1: "ingress_of w1 n = ingress_of w n"
    by (rule ingress_of_files) (simp add: w1)
  from ok n u have c: "add_route_created E d p h n m1 w1 = (Returned True, m', w')"
    by (simp add: add_route_def resolve_name_def add_route_named_def)
  obtain c0 m2 w2 where ct: "create_tunnel_named E (Some n) None m1 w1 = (c0, m2, w2)"
    by (cases "create_tunnel_named E (Some n) None m1 w1")
  have m2: "config_file m2 = Some (config_path (Some n))"
    using create_tunnel_named_manager [of E "Some n" None m1 w1] by (simp add: ct)
  have i2: "ingress_of w2 n = ingress_of w1 n"
    using other_create_tunnel_named [of "config_path (Some n)" E "Some n" None m1 w1]
    by (simp add: ct ingress_of_def)
  have s2: "selected n w2"
    using selected_create_tunnel_named [of n E None m1 w1] by (simp add: ct)
  obtain g w3 where gt: "get_tunnel_id E (Some n) m2 w2 = (g, w3)"
    by (cases "get_tunnel_id E (Some n) m2 w2")
  have f3: "files w3 = files w2"
    using files_get_tunnel_id [of E "Some n" m2 w2] by (simp add: gt)
  from c n ct gt obtain tid where
    aw: "add_route_write E d p h n tid m2 w3 = (Returned True, m', w')"
    by (auto simp: add_route_created_def create_tunnel_truthy
          split: outcome.splits bool.splits if_splits)
  have i3: "ingress_of w3 n = ingress_of w n"
    using f3 i2 i1 by (simp add: ingress_of_def)
  from add_route_write_success [OF aw m2] i3
  show "\<exists>rs'. add_ingress d (service_url h p)
                 (case ingress_of w n of None \<Rightarrow> [] | Some rs \<Rightarrow> rs) = Returned rs'
             \<and> ingress_of w' n = Some rs'"
    by simp
  from s2 have "n \<in> fst ` set (tunnels (load_state w2))"
    by (simp add: selected_def registered_def)
  then have "map_of (tunnels (load_state w2)) n \<noteq> None"
    by (simp add: map_of_eq_None_iff)
  moreover have "load_state w3 = load_state w2" using f3 by (rule load_state_files)
  ultimately obtain info where "map_of (tunnels (load_state w3)) n = Some info"
    by auto
  from add_route_write_routes [OF aw m2 this]
  show "\<exists>info' rts. map_of (tunnels (load_state w')) n = Some info'
           \<and> routes info' = drop_route d rts @ [\<lparr>domain = d, service = service_url h p\<rparr>]"
    by blast
qed

lemma remove_route_success:
  assumes ok: "remove_route E d (Some n) m w = (Returned True, m', w')" and n: "n \<noteq> []"
  shows "\<exists>rs. ingress_of w n = Some rs
            \<and> ingress_of w' n = Some (filter (\<lambda>r. \<not> rule_for d r) rs)"
proof -
  let ?m1 = "m\<lparr>tunnel_name := Some n, config_file := Some (config_path (Some n))\<rparr>"
  have cf: "config_file ?m1 = Some (config_path (Some n))" by simp
  from ok n have r: "remove_route_named E d n m w = (Returned True, m', w')"
    by (simp add: remove_route_def resolve_name_def)
  then obtain cfg where lc: "load_config ?m1 w = Returned cfg"
    by (cases "load_config ?m1 w") (simp_all add: remove_route_named_def)
  from r lc obtain rs where rs: "ingress cfg = Some rs"
    by (cases "ingress cfg") (simp_all add: remove_route_named_def)
  let ?rs' = "filter (\<lambda>r. \<not> rule_for d r) rs"
  define w1 where "w1 = save_config (cfg\<lparr>ingress := Some ?rs'\<rparr>) ?m1 w"
  have i1: "ingress_of w1 n = Some ?rs'"
    using ingress_of_save_config [OF cf, of "cfg\<lparr>ingress := Some ?rs'\<rparr>" w] by (simp add: w1_def)
  from r lc rs have "map_of (files w') (config_path (Some n)) = map_of (files w1) (config_path (Some n))"
    by (auto simp: remove_route_named_def Let_def split_beta w1_def
          split: outcome.splits if_splits option.splits)
  then have "ingress_of w' n = ingress_of w1 n" by (rule ingress_of_files)
  moreover have "ingress_of w n = Some rs"
    using load_config_ingress_of [OF lc cf] rs by simp
  ultimately show ?thesis using i1 by simp
qed

lemma apply_op_ingress_ok:
  assumes ok: "apply_op E n x m w = (Returned True, m', w')" and n: "n \<noteq> []"
      and inv: "ingress_of w n = None \<or> (\<exists>rs. ingress_of w n = Some rs \<and> ingress_ok rs)"
  shows "\<exists>rs. ingress_of w' n = Some rs \<and> ingress_ok rs"
proof (cases x)
  case (AddRoute d p h)
  with ok have "add_route E d p h (Some n) m w = (Returned True, m', w')" by simp
  from add_route_success(1) [OF this n] obtain rs' where
    rs': "add_ingress d (service_url h p) (case ingress_of w n of None \<Rightarrow> [] | Some rs \<Rightarrow> rs)
            = Returned rs'" "ingress_of w' n = Some rs'"
    by blast
  from inv rs'(1) have "ingress_ok rs'"
    by (auto dest: add_ingress_empty_ok add_ingress_ok)
  with rs'(2) show ?thesis by simp
next
  case (RemoveRoute d)
  with ok have "remove_route E d (Some n) m w = (Returned True, m', w')" by simp
  from remove_route_success [OF this n] obtain rs where
    rs: "ingress_of w n = Some rs" "ingress_of w' n = Some (filter (\<lambda>r. \<not> rule_for d r) rs)"
    by blast
  from inv rs(1) have "ingress_ok rs" by simp
  then have "ingress_ok (filter (\<lambda>r. \<not> rule_for d r) rs)" by (rule remove_ingress_ok)
  with rs(2) show ?thesis by simp
qed

lemma run_ops_ingress_ok:
  assumes "run_ops E n ops m w = Some (m', w')" "n \<noteq> []"
      and "ingress_of w n = None \<or> (\<exists>rs. ingress_of w n = Some rs \<and> ingress_ok rs)"
  shows "ingress_of w' n = ingress_of w n \<and> ops = []
       \<or> (\<exists>rs. ingress_of w' n = Some rs \<and> ingress_ok rs)"
  using assms
proof (induction ops arbitrary: m w)
  case Nil
  then show ?case by simp
next
  case (Cons x xs)
  from Cons.prems(1) obtain m1 w1 where
    step: "apply_op E n x m w = (Returned True, m1, w1)" and
    rest: "run_ops E n xs m1 w1 = Some (m', w')"
    by (auto split: prod.splits outcome.splits bool.splits)
  from apply_op_ingress_ok [OF step Cons.prems(2) Cons.prems(3)]
  have inv1: "\<exists>rs. ingress_of w1 n = Some rs \<and> ingress_ok rs" .
  with Cons.IH [OF rest Cons.prems(2)] show ?case by auto
qed

lemma run_ops_take:
  "run_ops E n ops m w = Some r \<Longrightarrow> \<exists>r'. run_ops E n (take k ops) m w = Some r'"
proof (induction ops arbitrary: k m w)
  case Nil
  then show ?case by simp
next
  case (Cons x xs)
  show ?case
  proof (cases k)
    case 0
    then show ?thesis by simp
  next
    case (Suc j)
    with Cons show ?thesis
      by (auto split: prod.splits outcome.splits bool.splits)
  qed
qed

subsection \<open>The quiet environment\<close>

lemma quiet_run [simp]:
  "run quiet_env argv w = (\<lparr>returncode = 0, stdout = [], stderr = []\<rparr>, emit (Run argv) w)"
  by (simp add: run_def quiet_env_def)

lemma quiet_restart: "fst (restart_tunnel quiet_env m w) = Returned ()"
  by (simp add: restart_tunnel_def check_autostart_status_def has_systemd_user_support_def
        Let_def split_beta quiet_env_def run_def)

lemma quiet_create:
  "n \<noteq> [] \<Longrightarrow> fst (create_tunnel quiet_env (Some n) sa m w) = Returned True"
  by (simp add: create_tunnel_def create_tunnel_named_def split_beta Let_def)

lemma quiet_tunnel_id:
  "fst (get_tunnel_id quiet_env (Some ''demo'') m w) = Returned (Some ''6ff42ae2'')"
  by (simp add: get_tunnel_id_def Let_def quiet_env_def run_def)

lemma drop_catch_all_dicts:
  "NonDict \<notin> set ys \<Longrightarrow> \<exists>xs. drop_catch_all ys = Returned xs"
proof (induction ys)
  case Nil
  then show ?case by simp
next
  case (Cons r ys)
  then show ?case by (cases r) auto
qed

lemma add_ingress_dicts:
  "NonDict \<notin> set rs \<Longrightarrow> \<exists>rs'. add_ingress d svc rs = Returned rs'"
  using drop_catch_all_dicts [of "filter (\<lambda>r. \<not> rule_for d r) rs"]
  by (auto simp: add_ingress_def)

lemma new_config_dicts:
  "NonDict \<notin> set (case ingress cfg of None \<Rightarrow> [] | Some rs \<Rightarrow> rs)
   \<Longrightarrow> \<exists>cfg'. new_config d svc tid cfg w = Returned cfg'"
  using add_ingress_dicts [of "case ingress cfg of None \<Rightarrow> [] | Some rs \<Rightarrow> rs" d svc]
  by (auto simp: new_config_def Let_def split: option.splits)

lemma quiet_add_route_write:
  assumes "load_config m w = Returned cfg"
      and "NonDict \<notin> set (case ingress cfg of None \<Rightarrow> [] | Some rs \<Rightarrow> rs)"
  shows "fst (add_route_write quiet_env d p h n tid m w) = Returned True"
proof -
  define w1 where "w1 = (if (case ingress cfg of None \<Rightarrow> True | Some rs \<Rightarrow> filter has_hostname rs = [])
                            \<and> auto_start_on_create m
                         then snd (check_autostart_status quiet_env m w) else w)"
  from new_config_dicts [OF assms(2)] obtain cfg' where
    "new_config d (service_url h p) tid cfg w1 = Returned cfg'" by blast
  with assms(1) show ?thesis
    using quiet_restart
    by (simp add: add_route_write_def Let_def split_beta w1_def split: outcome.splits)
qed

lemma load_config_ok:
  assumes "config_file m = Some (config_path (Some n))"
      and "map_of (files w) (config_path (Some n)) = None \<or> ingress_of w n \<noteq> None"
  shows "\<exists>cfg. load_config m w = Returned cfg \<and> ingress cfg = ingress_of w n"
  using assms
  by (auto simp: load_config_def ingress_of_def empty_config_def
        split: option.splits content.splits)

lemma quiet_add_route:
  assumes "map_of (files w) (config_path (Some ''demo'')) = None
         \<or> (\<exists>rs. ingress_of w ''demo'' = Some rs \<and> NonDict \<notin> set rs)"
  shows "fst (add_route quiet_env d p h (Some ''demo'') m w) = Returned True"
proof -
  let ?n = "''demo''"
  obtain m1 w1 where u:
    "(if Some ?n \<noteq> tunnel_name m then use_tunnel (Some ?n) m w else (m, w)) = (m1, w1)"
    by (cases "if Some ?n \<noteq> tunnel_name m then use_tunnel (Some ?n) m w else (m, w)")
  have w1: "w1 = snd (if Some ?n \<noteq> tunnel_name m then use_tunnel (Some ?n) m w else (m, w))"
    by (simp add: u)
  have f1: "map_of (files w1) (config_path (Some ?n)) = map_of (files w) (config_path (Some ?n))"
    by (simp add: w1)
  obtain c0 m2 w2 where ct: "create_tunnel quiet_env (Some ?n) None m1 w1 = (c0, m2, w2)"
    by (cases "create_tunnel quiet_env (Some ?n) None m1 w1")
  have c0: "c0 = Returned True"
    using quiet_create [of ?n None m1 w1] by (simp add: ct)
  have m2: "config_file m2 = Some (config_path (Some ?n))"
    using create_tunnel_named_manager [of quiet_env "Some ?n" None m1 w1]
    by (simp add: ct [unfolded create_tunnel_truthy [of "Some ?n", simplified]])
  have f2: "map_of (files w2) (config_path (Some ?n)) = map_of (files w1) (config_path (Some ?n))"
    using other_create_tunnel [of "config_path (Some ?n)" quiet_env "Some ?n" None m1 w1]
    by (simp add: ct)
  obtain g w3 where gt: "get_tunnel_id quiet_env (Some ?n) m2 w2 = (g, w3)"
    by (cases "get_tunnel_id quiet_env (Some ?n) m2 w2")
  have g: "g = Returned (Some ''6ff42ae2'')"
    using quiet_tunnel_id [of m2 w2] by (simp add: gt)
  have f3: "files w3 = files w2"
    using files_get_tunnel_id [of quiet_env "Some ?n" m2 w2] by (simp add: gt)
  have f: "map_of (files w3) (config_path (Some ?n)) = map_of (files w) (config_path (Some ?n))"
    by (simp add: f3 f2 f1)
  then have i: "ingress_of w3 ?n = ingress_of w ?n" by (rule ingress_of_files)
  from assms f i have "map_of (files w3) (config_path (Some ?n)) = None \<or> ingress_of w3 ?n \<noteq> None"
    by auto
  from load_config_ok [OF m2 this] obtain cfg where
    cfg: "load_config m2 w3 = Returned cfg" "ingress cfg = ingress_of w3 ?n"
    by blast
  have "ingress cfg = ingress_of w ?n" by (simp add: cfg(2) i)
  moreover from assms have "ingress_of w ?n = None
      \<or> (\<exists>rs. ingress_of w ?n = Some rs \<and> NonDict \<notin> set rs)"
    by (auto simp: ingress_of_def)
  ultimately have nd: "NonDict \<notin> set (case ingress cfg of None \<Rightarrow> [] | Some rs \<Rightarrow> rs)"
    by auto
  from quiet_add_route_write [OF cfg(1) nd]
  show ?thesis
    by (simp add: add_route_def resolve_name_def add_route_named_def u add_route_created_def
          ct c0 gt g)
qed

lemma quiet_remove_route:
  assumes "ingress_of w ''demo'' = Some rs" "list_ex (rule_for d) rs"
  shows "fst (remove_route quiet_env d (Some ''demo'') m w) = Returned True"
proof -
  let ?m1 = "m\<lparr>tunnel_name := Some ''demo'', config_file := Some (config_path (Some ''demo''))\<rparr>"
  have "config_file ?m1 = Some (config_path (Some ''demo''))" by simp
  from load_config_ok [OF this, of w] assms(1) obtain cfg where
    cfg: "load_config ?m1 w = Returned cfg" "ingress cfg = Some rs"
    by auto
  from assms(2) have "length (filter (\<lambda>r. \<not> rule_for d r) rs) \<noteq> length rs"
    by (metis (mono_tags, lifting) filter_id_conv length_filter_less list_ex_iff nat_neq_iff
        filter_True)
  with cfg quiet_restart show ?thesis
    by (simp add: remove_route_def resolve_name_def remove_route_named_def Let_def split_beta
          split: outcome.splits)
qed

lemma returned_true_obtain:
  assumes "fst r = Returned True"
  obtains m' w' where "r = (Returned True, m', w')"
  using assms by (cases r) auto

lemma empty_world_no_config: "map_of (files empty_world) p = None"
  by (simp add: empty_world_def)

subsection \<open>Claims about routes\<close>

text \<open>
  C1. Take a tunnel whose configuration file is missing or has no ingress section, and
  any sequence of \<^verbatim>\<open>add_route\<close> and \<^verbatim>\<open>remove_route\<close> calls on it that all return
  true. After each call of the sequence (after its first \<open>k\<close> operations, for every
  \<open>k\<close> from 1 on) the ingress list of the file consists of hostname rules with
  pairwise different hostnames followed by the catch-all rule
  \<^verbatim>\<open>{service: "http_status:404"}\<close>, which is its last element and occurs nowhere else.
\<close>

theorem ingress_invariant_under_route_ops:
  assumes "n \<noteq> []" and "ingress_of w n = None"
      and "run_ops E n ops m w = Some (m', w')"
      and "0 < k" and "k \<le> length ops"
  shows "\<exists>m'' w'' rs. run_ops E n (take k ops) m w = Some (m'', w'')
           \<and> ingress_of w'' n = Some rs \<and> ingress_ok rs"
proof -
  from run_ops_take [OF assms(3), of k] obtain m'' w'' where
    t: "run_ops E n (take k ops) m w = Some (m'', w'')"
    by auto
  from assms(4,5) have "take k ops \<noteq> []" by auto
  with run_ops_ingress_ok [OF t assms(1)] assms(2)
  have "\<exists>rs. ingress_of w'' n = Some rs \<and> ingress_ok rs" by simp
  with t show ?thesis by blast
qed

theorem ingress_invariant_under_route_ops_witness:
  "\<exists>m'' w'' rs. run_ops quiet_env ''demo'' (take 3 demo_ops) fresh_manager empty_world
                   = Some (m'', w'')
     \<and> ingress_of w'' ''demo'' = Some rs \<and> ingress_ok rs"
proof -
  let ?app = "''app.example.com''" and ?api = "''api.example.com''"
  have "fst (add_route quiet_env ?app 3000 ''localhost'' (Some ''demo'') fresh_manager empty_world)
          = Returned True"
    by (rule quiet_add_route) (simp add: empty_world_no_config)
  then obtain m1 w1 where
    e1: "add_route quiet_env ?app 3000 ''localhost'' (Some ''demo'') fresh_manager empty_world
           = (Returned True, m1, w1)"
    by (rule returned_true_obtain)
  from add_route_success(1) [OF e1] have i1: "ingress_of w1 ''demo''
      = Some [Dict (Some ?app) (Some (service_url ''localhost'' 3000)), catch_all]"
    by (simp add: ingress_of_def empty_world_no_config add_ingress_empty)
  have "fst (add_route quiet_env ?api 5000 ''localhost'' (Some ''demo'') m1 w1) = Returned True"
    by (rule quiet_add_route) (simp add: i1 catch_all_def)
  then obtain m2 w2 where
    e2: "add_route quiet_env ?api 5000 ''localhost'' (Some ''demo'') m1 w1
           = (Returned True, m2, w2)"
    by (rule returned_true_obtain)
  from add_route_success(1) [OF e2] have i2: "ingress_of w2 ''demo''
      = Some [Dict (Some ?app) (Some (service_url ''localhost'' 3000)),
              Dict (Some ?api) (Some (service_url ''localhost'' 5000)), catch_all]"
    by (simp add: i1 add_ingress_def catch_all_def)
  have "fst (remove_route quiet_env ?app (Some ''demo'') m2 w2) = Returned True"
    by (rule quiet_remove_route [OF i2]) simp
  then obtain m3 w3 where
    e3: "remove_route quiet_env ?app (Some ''demo'') m2 w2 = (Returned True, m3, w3)"
    by (rule returned_true_obtain)
  have run: "run_ops quiet_env ''demo'' demo_ops fresh_manager empty_world = Some (m3, w3)"
    by (simp add: demo_ops_def e1 e2 e3)
  have "ingress_of empty_world ''demo'' = None"
    by (simp add: ingress_of_def empty_world_no_config)
  from ingress_invariant_under_route_ops [OF _ this run, of 3] show ?thesis
    by (simp add: demo_ops_def)
qed

text \<open>
  C4. When \<^verbatim>\<open>add_route\<close> for a domain \<open>d\<close> succeeds twice in a row on the same
  tunnel, first with one service and then with another, the configuration's ingress
  list has exactly one rule for \<open>d\<close> and the tunnel's route list in the state document
  has exactly one entry for \<open>d\<close>, both with the second service.
\<close>

theorem add_route_twice:
  assumes "n \<noteq> []"
      and "add_route E d p1 h1 (Some n) m w = (Returned True, m1, w1)"
      and "add_route E d p2 h2 (Some n) m1 w1 = (Returned True, m2, w2)"
  shows "\<exists>rs info. ingress_of w2 n = Some rs
           \<and> filter (rule_for d) rs = [Dict (Some d) (Some (service_url h2 p2))]
           \<and> map_of (tunnels (load_state w2)) n = Some info
           \<and> filter (\<lambda>r. domain r = d) (routes info)
               = [\<lparr>domain = d, service = service_url h2 p2\<rparr>]"
proof -
  from add_route_success(1) [OF assms(3,1)] obtain rs where
    rs: "add_ingress d (service_url h2 p2)
           (case ingress_of w1 n of None \<Rightarrow> [] | Some rs \<Rightarrow> rs) = Returned rs"
        "ingress_of w2 n = Some rs"
    by blast
  from add_route_success(2) [OF assms(3,1)] obtain info rts where
    info: "map_of (tunnels (load_state w2)) n = Some info"
          "routes info = drop_route d rts @ [\<lparr>domain = d, service = service_url h2 p2\<rparr>]"
    by blast
  from add_ingress_one_rule [OF rs(1)] rs(2) info drop_route_one_route [of d rts]
  show ?thesis by simp
qed

theorem add_route_twice_witness:
  "\<exists>m1 w1 m2 w2 rs info.
     add_route quiet_env ''app.example.com'' 3000 ''localhost'' (Some ''demo'')
       fresh_manager empty_world = (Returned True, m1, w1)
   \<and> add_route quiet_env ''app.example.com'' 8080 ''svc'' (Some ''demo'') m1 w1
       = (Returned True, m2, w2)
   \<and> ingress_of w2 ''demo'' = Some rs
   \<and> filter (rule_for ''app.example.com'') rs
       = [Dict (Some ''app.example.com'') (Some ''http://svc:8080'')]
   \<and> map_of (tunnels (load_state w2)) ''demo'' = Some info
   \<and> filter (\<lambda>r. domain r = ''app.example.com'') (routes info)
       = [\<lparr>domain = ''app.example.com'', service = ''http://svc:8080''\<rparr>]"
proof -
  let ?d = "''app.example.com''"
  have "fst (add_route quiet_env ?d 3000 ''localhost'' (Some ''demo'') fresh_manager empty_world)
          = Returned True"
    by (rule quiet_add_route) (simp add: empty_world_no_config)
  then obtain m1 w1 where
    e1: "add_route quiet_env ?d 3000 ''localhost'' (Some ''demo'') fresh_manager empty_world
           = (Returned True, m1, w1)"
    by (rule returned_true_obtain)
  from add_route_success(1) [OF e1] have i1: "ingress_of w1 ''demo''
      = Some [Dict (Some ?d) (Some (service_url ''localhost'' 3000)), catch_all]"
    by (simp add: ingress_of_def empty_world_no_config add_ingress_empty)
  have "fst (add_route quiet_env ?d 8080 ''svc'' (Some ''demo'') m1 w1) = Returned True"
    by (rule quiet_add_route) (simp add: i1 catch_all_def)
  then obtain m2 w2 where
    e2: "add_route quiet_env ?d 8080 ''svc'' (Some ''demo'') m1 w1 = (Returned True, m2, w2)"
    by (rule returned_true_obtain)
  have s: "service_url ''svc'' 8080 = ''http://svc:8080''"
    by (simp add: service_url_def str_of_int_def str_of_nat.simps)
  from add_route_twice [OF _ e1 e2] have
    "\<exists>rs info. ingress_of w2 ''demo'' = Some rs
       \<and> filter (rule_for ?d) rs = [Dict (Some ?d) (Some ''http://svc:8080'')]
       \<and> map_of (tunnels (load_state w2)) ''demo'' = Some info
       \<and> filter (\<lambda>r. domain r = ?d) (routes info)
           = [\<lparr>domain = ?d, service = ''http://svc:8080''\<rparr>]"
    by (simp add: s)
  with e1 e2 show ?thesis by blast
qed

text \<open>
  C5. When the tunnel's configuration has no hostname rule for the domain \<open>d\<close> (the file
  is missing, or it has no ingress section, or no rule of the section is for \<open>d\<close>),
  \<^verbatim>\<open>remove_route\<close> returns false, puts the manager back as it was, and does nothing but
  print a message: no file is written, so the configuration file is unchanged and so is
  the state document with the tunnel's route list.
\<close>

theorem remove_route_absent_domain:
  assumes "map_of (files w) (config_path (resolve_name name m)) = None
         \<or> (\<exists>cfg. map_of (files w) (config_path (resolve_name name m)) = Some (ConfigDoc cfg)
               \<and> (case ingress cfg of None \<Rightarrow> True | Some rs \<Rightarrow> \<not> list_ex (rule_for d) rs))"
  shows "(\<exists>msg. remove_route E d name m w = (Returned False, m, emit (Print msg) w))
       \<and> files (snd (snd (remove_route E d name m w))) = files w
       \<and> load_state (snd (snd (remove_route E d name m w))) = load_state w
       \<and> filter (\<lambda>e. \<exists>p. e = Write p) (trace (snd (snd (remove_route E d name m w))))
           = filter (\<lambda>e. \<exists>p. e = Write p) (trace w)"
proof -
  have "\<exists>msg. remove_route E d name m w = (Returned False, m, emit (Print msg) w)"
  proof (cases "truthy (resolve_name name m)")
  case False
  then have "remove_route E d name m w = (Returned False, m, emit (Print ''No tunnel specified'') w)"
    by (simp add: remove_route_def)
  then show ?thesis by blast
next
  case True
  then obtain n where n: "resolve_name name m = Some n" by (cases "resolve_name name m") auto
  let ?m1 = "m\<lparr>tunnel_name := Some n, config_file := Some (config_path (Some n))\<rparr>"
  from assms n consider
      (absent) "map_of (files w) (config_path (Some n)) = None"
    | (noing) cfg where "map_of (files w) (config_path (Some n)) = Some (ConfigDoc cfg)"
        "ingress cfg = None"
    | (nomatch) cfg rs where "map_of (files w) (config_path (Some n)) = Some (ConfigDoc cfg)"
        "ingress cfg = Some rs" "\<not> list_ex (rule_for d) rs"
    by (auto split: option.splits)
  then show ?thesis
  proof cases
    case absent
    then have "load_config ?m1 w = Returned empty_config"
      by (simp add: load_config_def config_path_def path_join_def)
    then have "remove_route_named E d n m w
        = (Returned False, m, emit (Print ''No routes configured'') w)"
      by (simp add: remove_route_named_def empty_config_def)
    with True n have "remove_route E d name m w
        = (Returned False, m, emit (Print ''No routes configured'') w)"
      by (simp add: remove_route_def)
    then show ?thesis by blast
  next
    case noing
    then have "load_config ?m1 w = Returned cfg"
      by (simp add: load_config_def config_path_def path_join_def)
    with noing have "remove_route_named E d n m w
        = (Returned False, m, emit (Print ''No routes configured'') w)"
      by (simp add: remove_route_named_def)
    with True n have "remove_route E d name m w
        = (Returned False, m, emit (Print ''No routes configured'') w)"
      by (simp add: remove_route_def)
    then show ?thesis by blast
  next
    case nomatch
    then have lc: "load_config ?m1 w = Returned cfg"
      by (simp add: load_config_def config_path_def path_join_def)
    from nomatch have "filter (\<lambda>r. \<not> rule_for d r) rs = rs"
      by (simp add: list_ex_iff filter_id_conv)
    with lc nomatch have "remove_route_named E d n m w
        = (Returned False, m, emit (Print (''Route for '' @ d @ '' not found'')) w)"
      by (simp add: remove_route_named_def)
    with True n have "remove_route E d name m w
        = (Returned False, m, emit (Print (''Route for '' @ d @ '' not found'')) w)"
      by (simp add: remove_route_def)
    then show ?thesis by blast
  qed
  qed
  then obtain msg where r: "remove_route E d name m w = (Returned False, m, emit (Print msg) w)"
    by blast
  have "\<exists>msg'. emit (Print msg) w = emit (Print msg') w" by blast
  with r show ?thesis by simp
qed

theorem remove_route_absent_domain_witness:
  "(\<exists>msg. remove_route quiet_env ''api.example.com'' (Some ''demo'') fresh_manager demo_world
          = (Returned False, fresh_manager, emit (Print msg) demo_world))
 \<and> files (snd (snd (remove_route quiet_env ''api.example.com'' (Some ''demo'') fresh_manager
                         demo_world))) = files demo_world"
  using remove_route_absent_domain [of demo_world "Some ''demo''" fresh_manager "''api.example.com''" quiet_env]
  by (simp add: demo_world_def fresh_manager_def resolve_name_def config_path_def path_join_def config_dir_def)

subsection \<open>Tunnel deletion\<close>

lemma prepares_refl [simp]: "prepares n w w"
  by (simp add: prepares_def)

lemma prepares_trans: "prepares n w w1 \<Longrightarrow> prepares n w1 w2 \<Longrightarrow> prepares n w w2"
  by (auto simp: prepares_def)

lemma prepares_emit: "harmless n e \<Longrightarrow> prepares n w w1 \<Longrightarrow> prepares n w (emit e w1)"
  by (auto simp: prepares_def)

lemma prepares_run:
  "argv \<noteq> [''cloudflared'', ''tunnel'', ''delete'', n] \<Longrightarrow> prepares n w w1
   \<Longrightarrow> prepares n w (snd (run E argv w1))"
  by (simp add: run_def prepares_emit)

lemma prepares_save_state: "prepares n w w1 \<Longrightarrow> prepares n w (save_state s w1)"
  by (auto simp: prepares_def save_state_def emit_def)

lemma prepares_register: "prepares n w w1 \<Longrightarrow> prepares n w (register_tunnel name w1)"
  by (simp add: register_tunnel_def Let_def prepares_save_state)

lemma prepares_update: "prepares n w w1 \<Longrightarrow> prepares n w (update_tunnel_info name f w1)"
  by (simp add: update_tunnel_info_def Let_def prepares_save_state)

lemma prepares_use_tunnel: "prepares n w w1 \<Longrightarrow> prepares n w (snd (use_tunnel name m w1))"
  by (simp add: use_tunnel_def Let_def prepares_save_state prepares_register)

lemma prepares_has_systemd:
  "prepares n w w1 \<Longrightarrow> prepares n w (snd (has_systemd_user_support E w1))"
  by (simp add: has_systemd_user_support_def Let_def split_beta prepares_run)

lemma prepares_check_autostart:
  "prepares n w w1 \<Longrightarrow> prepares n w (snd (check_autostart_status E m w1))"
  by (simp add: check_autostart_status_def Let_def split_beta prepares_run prepares_has_systemd)

lemma prepares_stop_service: "prepares n w w1 \<Longrightarrow> prepares n w (stop_service E k w1)"
  by (simp add: stop_service_def Let_def split_beta prepares_run prepares_has_systemd)

lemma prepares_remove_autostart:
  "prepares n w w1 \<Longrightarrow> prepares n w (snd (remove_autostart E m w1))"
  by (simp add: remove_autostart_def Let_def prepares_emit prepares_update)

lemma delete_attempts_active:
  assumes "\<forall>h. returncode (respond E h [''cloudflared'', ''tunnel'', ''delete'', n]) \<noteq> 0
             \<and> contains (stderr (respond E h [''cloudflared'', ''tunnel'', ''delete'', n]))
                  ''active connections''"
  shows "fst (delete_attempts E n 0 w) = False"
    and "trace (snd (delete_attempts E n 0 w)) = trace w @ attempts_trace n"
    and "files (snd (delete_attempts E n 0 w)) = files w"
proof -
  have a: "\<And>h. returncode (respond E h [''cloudflared'', ''tunnel'', ''delete'', n]) \<noteq> 0"
          "\<And>h. contains (stderr (respond E h [''cloudflared'', ''tunnel'', ''delete'', n]))
                  ''active connections''"
    using assms by simp_all
  have s1: "str_of_nat (Suc 0) = ''1''" and s2: "str_of_nat (Suc (Suc 0)) = ''2''"
    by (simp_all add: str_of_nat.simps)
  have 2: "delete_attempts E n (Suc (Suc 0)) v
     = (False, emit (Print ''Failed to delete tunnel: Active connections persist'')
                (emit (Run [''cloudflared'', ''tunnel'', ''delete'', n]) v))" for v
    by (subst delete_attempts.simps) (simp add: a Let_def)
  have 1: "delete_attempts E n (Suc 0) v
     = delete_attempts E n (Suc (Suc 0))
         (snd (run E [''cloudflared'', ''tunnel'', ''cleanup'', n]
            (snd (run E [''pkill'', ''-9'', ''-f'', ''cloudflared'']
               (emit (Sleep 5000)
                  (emit (Print ''Active connections still exist. Retrying (2/3)...'')
                     (emit (Run [''cloudflared'', ''tunnel'', ''delete'', n]) v)))))))" for v
    by (subst delete_attempts.simps) (simp add: a Let_def s2)
  have 0: "delete_attempts E n 0 v
     = delete_attempts E n (Suc 0)
         (snd (run E [''cloudflared'', ''tunnel'', ''cleanup'', n]
            (snd (run E [''pkill'', ''-9'', ''-f'', ''cloudflared'']
               (emit (Sleep 5000)
                  (emit (Print ''Active connections still exist. Retrying (1/3)...'')
                     (emit (Run [''cloudflared'', ''tunnel'', ''delete'', n]) v)))))))" for v
    by (subst delete_attempts.simps) (simp add: a Let_def s1)
  show "fst (delete_attempts E n 0 w) = False" by (simp add: 0 1 2)
  show "trace (snd (delete_attempts E n 0 w)) = trace w @ attempts_trace n"
    by (simp add: 0 1 2 run_def attempts_trace_def)
  show "files (snd (delete_attempts E n 0 w)) = files w" by (simp add: 0 1 2)
qed

lemma files_stop_service [simp]: "files (stop_service E k w) = files w"
  by (simp add: stop_service_def Let_def split_beta)

lemma selected_stop_service [simp]: "selected n (stop_service E k w) = selected n w"
  by (rule selected_files) simp

lemma selected_has_systemd [simp]:
  "selected n (snd (has_systemd_user_support E w)) = selected n w"
  by (rule selected_files) simp

lemma selected_remove_autostart [simp]:
  "selected n (snd (remove_autostart E m w)) = selected n w"
  by (simp add: remove_autostart_def Let_def)

lemma delete_prepare_manager [simp]:
  "fst (delete_prepare E n m w) = m\<lparr>tunnel_name := Some n, config_file := Some (config_path (Some n))\<rparr>"
  by (simp add: delete_prepare_def use_tunnel_def Let_def split_beta)

lemma other_delete_prepare [simp]:
  "p \<noteq> STATE_FILE \<Longrightarrow> map_of (files (snd (delete_prepare E n m w))) p = map_of (files w) p"
  by (simp add: delete_prepare_def Let_def split_beta)

lemma selected_delete_prepare [simp]: "selected n (snd (delete_prepare E n m w))"
  by (simp add: delete_prepare_def Let_def split_beta)

lemma prepares_delete_prepare: "prepares n w (snd (delete_prepare E n m w))"
proof -
  define m1 where "m1 = fst (use_tunnel (Some n) m w)"
  define w1 where "w1 = snd (use_tunnel (Some n) m w)"
  define ha where "ha = fst (check_autostart_status E m1 w1)"
  define w2 where "w2 = snd (check_autostart_status E m1 w1)"
  define w3 where "w3 = snd (run E [''pkill'', ''-f'', ''cloudflared.*tunnel.*'' @ n] w2)"
  define w4 where "w4 = (if ha then stop_service E n w3 else w3)"
  define w6 where "w6 = snd (run E [''cloudflared'', ''tunnel'', ''cleanup'', n] (emit (Sleep 3000) w4))"
  define w7 where "w7 = (if ha then snd (remove_autostart E m1 w6) else w6)"
  have e: "snd (delete_prepare E n m w) = w7"
    by (simp add: delete_prepare_def Let_def split_beta
          m1_def w1_def ha_def w2_def w3_def w4_def w6_def w7_def)
  have "prepares n w w1"
    unfolding w1_def by (rule prepares_use_tunnel) simp
  then have "prepares n w w2"
    unfolding w2_def by (rule prepares_check_autostart)
  then have "prepares n w w3"
    unfolding w3_def by (rule prepares_run [rotated]) simp
  then have "prepares n w w4"
    unfolding w4_def by (simp add: prepares_stop_service)
  then have "prepares n w w6"
    unfolding w6_def by (intro prepares_run prepares_emit) simp_all
  then have "prepares n w w7"
    unfolding w7_def by (simp add: prepares_remove_autostart)
  with e show ?thesis by simp
qed

text \<open>
  C2. If the provider answers every \<^verbatim>\<open>cloudflared tunnel delete\<close> of the tunnel with a
  failure whose stderr mentions active connections, \<^verbatim>\<open>delete_tunnel\<close> returns false
  after exactly three attempts; between two attempts it sleeps five seconds, kills
  every \<^verbatim>\<open>cloudflared\<close> process and runs the provider's cleanup. Before the first
  attempt it neither runs the deletion nor removes a file, and in the end every file
  other than the state document (the configuration file and the credential files among
  them) is as it was and the state document still has the tunnel's record.
\<close>

theorem delete_tunnel_active_connections:
  assumes active:
        "\<forall>h. returncode (respond E h [''cloudflared'', ''tunnel'', ''delete'', n]) \<noteq> 0
           \<and> contains (stderr (respond E h [''cloudflared'', ''tunnel'', ''delete'', n]))
                ''active connections''"
      and n: "n \<noteq> []"
  shows "fst (delete_tunnel E (Some n) force m w) = Returned False
       \<and> (\<exists>pre. trace (snd (snd (delete_tunnel E (Some n) force m w)))
                   = trace w @ pre @ attempts_trace n
                \<and> list_all (harmless n) pre)
       \<and> (\<forall>p. p \<noteq> STATE_FILE \<longrightarrow>
             map_of (files (snd (snd (delete_tunnel E (Some n) force m w)))) p
               = map_of (files w) p)
       \<and> n \<in> set (map fst (tunnels (load_state (snd (snd (delete_tunnel E (Some n) force m w))))))"
proof -
  define w7 where "w7 = snd (delete_prepare E n m w)"
  define w8 where "w8 = snd (delete_attempts E n 0 w7)"
  have r: "delete_tunnel E (Some n) force m w
             = (Returned False, (fst (delete_prepare E n m w))\<lparr>tunnel_name := tunnel_name m\<rparr>, w8)"
    using n
    by (simp add: delete_tunnel_def resolve_name_def delete_tunnel_named_def Let_def split_beta
          delete_attempts_active(1) [OF active] w7_def w8_def del: delete_prepare_manager)
  from prepares_delete_prepare [of n w E m]
  obtain pre where pre: "trace w7 = trace w @ pre" "list_all (harmless n) pre"
    by (auto simp: prepares_def w7_def)
  have t: "trace w8 = trace w @ pre @ attempts_trace n"
    using delete_attempts_active(2) [OF active, of w7] pre(1) by (simp add: w8_def)
  have f8: "files w8 = files w7"
    using delete_attempts_active(3) [OF active, of w7] by (simp add: w8_def)
  have f: "map_of (files w8) p = map_of (files w) p" if "p \<noteq> STATE_FILE" for p
    using that by (simp add: f8 w7_def)
  have "selected n w7" by (simp add: w7_def)
  moreover have "load_state w8 = load_state w7" using f8 by (rule load_state_files)
  ultimately have s: "n \<in> set (map fst (tunnels (load_state w8)))"
    by (simp add: selected_def registered_def)
  from t pre(2) f s show ?thesis by (auto simp: r)
qed

theorem delete_tunnel_active_connections_witness:
  "fst (delete_tunnel busy_env (Some ''demo'') False fresh_manager demo_world) = Returned False
 \<and> map_of (files (snd (snd (delete_tunnel busy_env (Some ''demo'') False fresh_manager demo_world))))
      ''~/.cloudflared/config-demo.yml''
    = map_of (files demo_world) ''~/.cloudflared/config-demo.yml''
 \<and> ''demo'' \<in> set (map fst (tunnels (load_state
        (snd (snd (delete_tunnel busy_env (Some ''demo'') False fresh_manager demo_world))))))"
proof -
  have a: "\<forall>h. returncode (respond busy_env h [''cloudflared'', ''tunnel'', ''delete'', ''demo'']) \<noteq> 0
           \<and> contains (stderr (respond busy_env h [''cloudflared'', ''tunnel'', ''delete'', ''demo'']))
                ''active connections''"
    by (simp add: busy_env_def)
  have p: "''~/.cloudflared/config-demo.yml'' \<noteq> STATE_FILE" by (simp add: STATE_FILE_def)
  from delete_tunnel_active_connections [OF a, of False fresh_manager demo_world] p
  show ?thesis by simp
qed

subsection \<open>Tunnel creation\<close>

text \<open>
  C10. The guard that prints \<^verbatim>\<open>Tunnel name required\<close> is never taken: for every input
  \<^verbatim>\<open>create_tunnel\<close> goes on to \<^verbatim>\<open>use_tunnel\<close> with the resolved name. With no name
  argument and no tunnel selected that name is \<^verbatim>\<open>None\<close>: the manager's configuration
  path becomes \<^verbatim>\<open>config-None.yml\<close>, a record with that path is registered under the
  key \<^verbatim>\<open>None\<close> (which the JSON document spells \<^verbatim>\<open>null\<close>), the provider listing is
  queried, and the membership test on its output raises TypeError; nothing is printed.
\<close>

theorem create_tunnel_name_guard_unreachable:
  "create_tunnel E name sa m w
     = create_tunnel_named E
         (if \<not> truthy name \<and> truthy (tunnel_name m) then tunnel_name m else name) sa m w
 \<and> fst (create_tunnel E' None sa' (m'\<lparr>tunnel_name := None\<rparr>) w') = Raised TypeError
 \<and> fst (snd (create_tunnel E' None sa' (m'\<lparr>tunnel_name := None\<rparr>) w'))
     = m'\<lparr>tunnel_name := None, config_file := Some ''~/.cloudflared/config-None.yml''\<rparr>
 \<and> map_of (tunnels (load_state (snd (snd (create_tunnel E' None sa' (m'\<lparr>tunnel_name := None\<rparr>) w')))))
       ''null'' = Some (new_record None)
 \<and> info_config_file (new_record None) = ''~/.cloudflared/config-None.yml''
 \<and> trace (snd (snd (create_tunnel E' None sa' (m'\<lparr>tunnel_name := None\<rparr>) w')))
     = trace w' @ [Write STATE_FILE, Write STATE_FILE, Run [''cloudflared'', ''tunnel'', ''list'']]"
proof -
  have a: "create_tunnel E name sa m w
     = create_tunnel_named E
         (if \<not> truthy name \<and> truthy (tunnel_name m) then tunnel_name m else name) sa m w"
    by (simp add: create_tunnel_def)
  have b: "create_tunnel E' None sa' (m'\<lparr>tunnel_name := None\<rparr>) w'
     = create_tunnel_named E' None sa' (m'\<lparr>tunnel_name := None\<rparr>) w'"
    by (simp add: create_tunnel_def)
  have p: "config_path None = ''~/.cloudflared/config-None.yml''"
    by (simp add: config_path_def path_join_def config_dir_def)
  have c: "fst (create_tunnel_named E' None sa' (m'\<lparr>tunnel_name := None\<rparr>) w') = Raised TypeError"
    by (simp add: create_tunnel_named_def Let_def split_beta)
  have d: "map_of (tunnels (load_state (snd (snd (create_tunnel_named E' None sa' (m'\<lparr>tunnel_name := None\<rparr>) w')))))
       ''null'' = Some (new_record None)"
    by (simp add: create_tunnel_named_def use_tunnel_def register_tunnel_def Let_def split_beta
          update_conv')
  have e: "trace (snd (snd (create_tunnel_named E' None sa' (m'\<lparr>tunnel_name := None\<rparr>) w')))
     = trace w' @ [Write STATE_FILE, Write STATE_FILE, Run [''cloudflared'', ''tunnel'', ''list'']]"
    by (simp add: create_tunnel_named_def use_tunnel_def register_tunnel_def save_state_def
          run_def emit_def Let_def split_beta)
  show ?thesis
    using a c d e by (simp add: b p new_record_def)
qed

text \<open>
  What \<^verbatim>\<open>create_tunnel\<close> does by the provider's listing: when the name occurs in the
  printed table it returns true without running the create command; when it does not,
  the create command is run and its exit status decides the result. The record of the
  name is in the state document either way, from \<^verbatim>\<open>use_tunnel\<close>.
\<close>

lemma create_tunnel_listed:
  assumes "n \<noteq> []" "\<forall>h. contains (stdout (respond E h [''cloudflared'', ''tunnel'', ''list''])) n"
  shows "fst (create_tunnel E (Some n) sa m w) = Returned True"
    and "trace (snd (snd (create_tunnel E (Some n) sa m w)))
           = trace w @ [Write STATE_FILE, Write STATE_FILE, Run [''cloudflared'', ''tunnel'', ''list''],
                        Print (''Tunnel '' @ [CHR 0x27] @ n @ [CHR 0x27] @ '' already exists'')]"
  using assms
  by (simp_all add: create_tunnel_def create_tunnel_named_def use_tunnel_def register_tunnel_def
        save_state_def run_def emit_def Let_def split_beta)

lemma create_tunnel_unlisted:
  assumes "n \<noteq> []" "\<forall>h. \<not> contains (stdout (respond E h [''cloudflared'', ''tunnel'', ''list''])) n"
  shows "Run [''cloudflared'', ''tunnel'', ''create'', n]
           \<in> set (trace (snd (snd (create_tunnel E (Some n) sa m w))))"
    and "fst (create_tunnel E (Some n) sa m w)
           = Returned (returncode (respond E
               (trace w @ [Write STATE_FILE, Write STATE_FILE,
                           Run [''cloudflared'', ''tunnel'', ''list'']])
               [''cloudflared'', ''tunnel'', ''create'', n]) = 0)"
    and "registered n (snd (snd (create_tunnel E (Some n) sa m w)))"
proof -
  show "Run [''cloudflared'', ''tunnel'', ''create'', n]
           \<in> set (trace (snd (snd (create_tunnel E (Some n) sa m w))))"
    using assms
    by (simp add: create_tunnel_def create_tunnel_named_def run_def emit_def Let_def split_beta
          setup_autostart_def update_tunnel_info_def save_state_def register_tunnel_def)
  show "fst (create_tunnel E (Some n) sa m w)
           = Returned (returncode (respond E
               (trace w @ [Write STATE_FILE, Write STATE_FILE,
                           Run [''cloudflared'', ''tunnel'', ''list'']])
               [''cloudflared'', ''tunnel'', ''create'', n]) = 0)"
    using assms
    by (simp add: create_tunnel_def create_tunnel_named_def use_tunnel_def register_tunnel_def
          save_state_def run_def emit_def Let_def split_beta)
  show "registered n (snd (snd (create_tunnel E (Some n) sa m w)))"
    using assms(1) selected_create_tunnel_named [of n E sa m w]
    by (simp add: create_tunnel_truthy selected_def)
qed

text \<open>
  C3. The test for an existing tunnel is \<^verbatim>\<open>tunnel_name in result.stdout\<close>, a substring
  test on the printed table. With the registry holding only the tunnel \<^verbatim>\<open>my-app\<close>
  (the JSON listing has no entry named \<^verbatim>\<open>app\<close>, and \<^verbatim>\<open>_get_tunnel_id\<close>, which
  compares names for equality, finds no id for it), \<^verbatim>\<open>create_tunnel("app")\<close> returns
  true and never runs the provider's create command.
\<close>

theorem create_tunnel_substring_of_listing:
  "json_loads listing_env
     (stdout (respond listing_env [] [''cloudflared'', ''tunnel'', ''list'', ''--output'', ''json'']))
     = Some [\<lparr>entry_name = Some ''my-app'', entry_id = Some ''6ff42ae2''\<rparr>]
 \<and> fst (get_tunnel_id listing_env (Some ''app'') fresh_manager empty_world) = Returned None
 \<and> fst (create_tunnel listing_env (Some ''app'') None fresh_manager empty_world) = Returned True
 \<and> Run [''cloudflared'', ''tunnel'', ''create'', ''app'']
      \<notin> set (trace (snd (snd (create_tunnel listing_env (Some ''app'') None fresh_manager
                                 empty_world))))"
proof -
  have l: "\<forall>h. contains (stdout (respond listing_env h [''cloudflared'', ''tunnel'', ''list''])) ''app''"
    by (simp add: listing_env_def)
  have "fst (get_tunnel_id listing_env (Some ''app'') fresh_manager empty_world) = Returned None"
    by (simp add: get_tunnel_id_def listing_env_def Let_def run_def quiet_env_def)
  moreover have "json_loads listing_env
     (stdout (respond listing_env [] [''cloudflared'', ''tunnel'', ''list'', ''--output'', ''json'']))
     = Some [\<lparr>entry_name = Some ''my-app'', entry_id = Some ''6ff42ae2''\<rparr>]"
    by (simp add: listing_env_def)
  ultimately show ?thesis
    using create_tunnel_listed [OF _ l, of None fresh_manager empty_world]
    by (simp add: empty_world_def)
qed

subsection \<open>Default tunnel of a route addition\<close>

text \<open>
  C9. A call of \<^verbatim>\<open>add_route\<close> that omits the tunnel name runs with the default
  \<^verbatim>\<open>'Universal-Tunnel'\<close>, which is truthy: the name that is resolved is the default and
  never the manager's current tunnel. Whatever tunnel the manager had selected, and on
  every path through the call, the manager ends up on \<^verbatim>\<open>Universal-Tunnel\<close> with its
  configuration path, and the state document has a record for that name and names it
  as the current tunnel.
\<close>

theorem add_route_default_tunnel:
  "add_route_omitting_name E d p m w
     = add_route_named E d p ''localhost'' ''Universal-Tunnel'' m w
 \<and> resolve_name add_route_default_tunnel_name m = Some ''Universal-Tunnel''
 \<and> tunnel_name (fst (snd (add_route_omitting_name E d p m w))) = Some ''Universal-Tunnel''
 \<and> config_file (fst (snd (add_route_omitting_name E d p m w)))
     = Some ''~/.cloudflared/config-Universal-Tunnel.yml''
 \<and> current_tunnel (load_state (snd (snd (add_route_omitting_name E d p m w))))
     = Some ''Universal-Tunnel''
 \<and> ''Universal-Tunnel'' \<in> set (map fst (tunnels (load_state (snd (snd (add_route_omitting_name E d p m w))))))"
proof -
  have r: "resolve_name add_route_default_tunnel_name m = Some ''Universal-Tunnel''"
    by (simp add: resolve_name_def add_route_default_tunnel_name_def)
  have e: "add_route_omitting_name E d p m w
     = add_route_named E d p ''localhost'' ''Universal-Tunnel'' m w"
    by (simp add: add_route_omitting_name_def add_route_def r add_route_default_end_user_url_def)
  have p: "config_path (Some ''Universal-Tunnel'') = ''~/.cloudflared/config-Universal-Tunnel.yml''"
    by (simp add: config_path_def path_join_def config_dir_def)
  have m: "fst (snd (add_route_named E d p ''localhost'' ''Universal-Tunnel'' m w))
     = m\<lparr>tunnel_name := Some ''Universal-Tunnel'',
          config_file := Some (config_path (Some ''Universal-Tunnel''))\<rparr>"
    by (rule add_route_named_manager) simp
  have s: "selected ''Universal-Tunnel''
             (snd (snd (add_route_named E d p ''localhost'' ''Universal-Tunnel'' m w)))"
    by (rule selected_add_route_named) simp
  show ?thesis
    using s by (simp add: e r m p selected_def registered_def)
qed

subsection \<open>Temporary tunnels\<close>









lemma registered_emit [simp]: "registered n (emit e w) = registered n w"
  by (simp add: registered_def)

lemma registered_unregister:
  "registered n (unregister_tunnel name w) \<longleftrightarrow> registered n w \<and> name \<noteq> Some n"
proof (cases name)
  case None
  then show ?thesis by (simp add: unregister_tunnel_def)
next
  case (Some k)
  let ?ts = "tunnels (load_state w)"
  have d: "set (map fst (AList.delete k ?ts)) = set (map fst ?ts) - {k}"
    by (simp only: delete_keys set_removeAll)
  show ?thesis
  proof (cases "k \<in> set (map fst ?ts)")
    case True
    then have "registered n (unregister_tunnel name w) \<longleftrightarrow> n \<in> set (map fst (AList.delete k ?ts))"
      by (simp add: Some unregister_tunnel_def registered_def Let_def)
    also have "\<dots> \<longleftrightarrow> n \<in> set (map fst ?ts) \<and> n \<noteq> k" unfolding d by auto
    finally show ?thesis by (auto simp: Some registered_def)
  next
    case False
    then have "unregister_tunnel name w = w"
      by (simp add: Some unregister_tunnel_def Let_def)
    with False show ?thesis by (auto simp: Some registered_def)
  qed
qed

lemma list_temp_loop_keeps_unregistered:
  "\<not> registered n w \<Longrightarrow> \<not> registered n (snd (list_temp_loop E ts acc w))"
  by (induction E ts acc w rule: list_temp_loop.induct)
     (auto simp: registered_unregister split: option.splits)

lemma list_temp_loop_reaps:
  assumes "(n, info) \<in> set ts" "temp_tunnel info" "temp_process_id info = Some pid" "pid \<noteq> 0"
      and "\<forall>h. \<not> process_exists E h pid"
  shows "\<not> registered n (snd (list_temp_loop E ts acc w))"
  using assms(1)
proof (induction ts arbitrary: acc w)
  case Nil
  then show ?case by simp
next
  case (Cons a rest)
  obtain name i where a: "a = (name, i)" by (cases a)
  show ?case
  proof (cases "(n, info) = (name, i)")
    case True
    with assms(2-5) show ?thesis
      by (simp add: a list_temp_loop_keeps_unregistered registered_unregister)
  next
    case False
    with Cons.prems a have "(n, info) \<in> set rest" by auto
    then have "\<not> registered n (snd (list_temp_loop E rest acc' w'))" for acc' w'
      by (rule Cons.IH)
    then show ?thesis
      by (simp add: a split: option.splits)
  qed
qed

lemma list_temp_loop_lists_live:
  "x \<in> set (fst (list_temp_loop E ts acc w))
   \<Longrightarrow> x \<in> set acc \<or> (\<exists>pid h. temp_process_id x = Some pid \<and> process_exists E h pid)"
  by (induction E ts acc w rule: list_temp_loop.induct)
     (auto split: option.splits if_splits)

lemma list_temp_tunnels_reaps:
  assumes "(n, info) \<in> set (tunnels (load_state w))" "temp_tunnel info"
      and "temp_process_id info = Some pid" "pid \<noteq> 0" "\<forall>h. \<not> process_exists E h pid"
  shows "\<not> registered n (snd (list_temp_tunnels E w))"
    and "info \<notin> set (fst (list_temp_tunnels E w))"
proof -
  show "\<not> registered n (snd (list_temp_tunnels E w))"
    unfolding list_temp_tunnels_def using assms by (rule list_temp_loop_reaps)
  show "info \<notin> set (fst (list_temp_tunnels E w))"
    using list_temp_loop_lists_live [of info E "tunnels (load_state w)" "[]" w] assms(3,5)
    by (auto simp: list_temp_tunnels_def)
qed

lemma list_temp_reaps_recorded_pid:
  "fst (list_temp_tunnels dead_env temp_world) = []
 \<and> tunnels (load_state (snd (list_temp_tunnels dead_env temp_world))) = []"
  by (simp add: list_temp_tunnels_def temp_world_def temp_record_def dead_env_def quiet_env_def
        load_state_def load_state_value_def json_load_file_def STATE_FILE_def
        unregister_tunnel_def save_state_def emit_def Let_def AList.delete_eq)

text \<open>
  C7. \<^verbatim>\<open>list_temp_tunnels\<close> unregisters a temporary record whose recorded process no
  longer exists and does not list it (the lemmas above). \<^verbatim>\<open>_check_tunnel_status\<close>
  does not: for the record of the dead process 4242 it answers \<^verbatim>\<open>stopped\<close> and only
  sets \<^verbatim>\<open>temp_process_id\<close> to \<^verbatim>\<open>None\<close>. The record stays in the state document
  with \<^verbatim>\<open>temp_tunnel\<close> true, and a following \<^verbatim>\<open>list_temp_tunnels\<close>, which looks
  only at records with a process id, neither lists nor removes it.
\<close>

theorem dead_temp_tunnel_survives_status_check:
  "fst (check_tunnel_status dead_env ''temp-1700000000'' temp_world) = ''stopped''
 \<and> tunnels (load_state (snd (check_tunnel_status dead_env ''temp-1700000000'' temp_world)))
     = [(''temp-1700000000'', temp_record\<lparr>temp_process_id := None\<rparr>)]
 \<and> temp_tunnel (temp_record\<lparr>temp_process_id := None\<rparr>)
 \<and> fst (list_temp_tunnels dead_env
          (snd (check_tunnel_status dead_env ''temp-1700000000'' temp_world))) = []
 \<and> tunnels (load_state (snd (list_temp_tunnels dead_env
          (snd (check_tunnel_status dead_env ''temp-1700000000'' temp_world)))))
     = [(''temp-1700000000'', temp_record\<lparr>temp_process_id := None\<rparr>)]"
proof -
  let ?w1 = "snd (check_tunnel_status dead_env ''temp-1700000000'' temp_world)"
  have c: "check_tunnel_status dead_env ''temp-1700000000'' temp_world
     = (''stopped'',
        \<lparr>files = [(''~/.cloudflared/tunnel_manager_state.json'',
                 StateDoc \<lparr>tunnels = [(''temp-1700000000'', temp_record\<lparr>temp_process_id := None\<rparr>)],
                           current_tunnel = Some ''temp-1700000000''\<rparr>)],
         trace = [Run [''pgrep'', ''-f'', ''cloudflared.*tunnel.*temp-1700000000''],
                  Kill 4242 0, Write ''~/.cloudflared/tunnel_manager_state.json'']\<rparr>)"
    by (simp add: check_tunnel_status_def check_manual_process_def check_temp_process_def
          temp_world_def temp_record_def dead_env_def quiet_env_def run_def emit_def
          load_state_def load_state_value_def json_load_file_def STATE_FILE_def
          update_tunnel_info_def save_state_def Let_def)
  have l: "list_temp_tunnels dead_env ?w1 = ([], ?w1)"
    by (simp add: c list_temp_tunnels_def load_state_def load_state_value_def
          json_load_file_def STATE_FILE_def temp_record_def)
  have s: "tunnels (load_state ?w1) = [(''temp-1700000000'', temp_record\<lparr>temp_process_id := None\<rparr>)]"
    by (simp add: c load_state_def load_state_value_def json_load_file_def STATE_FILE_def)
  show ?thesis
    by (simp add: l s) (simp add: c temp_record_def)
qed

end
